theory Spec2Isabelle
  imports Complex_Main "HOL-Library.Word" "HOL-Library.Log_Nat"
begin

section \<open>Numbers\<close>

text \<open>
  A JavaScript \<^verbatim>\<open>number\<close>: a finite value, or one of the three special values of
  IEEE-754. The sign of zero is not part of the model: every zero is \<^verbatim>\<open>+0\<close>.

  \<open>jadd\<close>, \<open>jsub\<close>, \<open>jmul\<close> and \<open>jdiv\<close> give the exact result on finite numbers and
  follow the IEEE tables on the special values. The layout arithmetic of the render pass
  runs on small whole numbers, their halves and their quotients by a class count of 1 to 4,
  where binary64 is exact; it uses these operations as they are. \<^verbatim>\<open>fitContain\<close> receives
  the size of an arbitrary image: its operations round to binary64 (below).
\<close>

datatype jsnum = Num real | PInf | NInf | NaN

fun isFinite :: "jsnum \<Rightarrow> bool" where
  "isFinite (Num a) = True"
| "isFinite PInf = False"
| "isFinite NInf = False"
| "isFinite NaN = False"

fun jneg :: "jsnum \<Rightarrow> jsnum" where
  "jneg (Num a) = Num (- a)"
| "jneg PInf = NInf"
| "jneg NInf = PInf"
| "jneg NaN = NaN"

fun jadd :: "jsnum \<Rightarrow> jsnum \<Rightarrow> jsnum" where
  "jadd (Num a) (Num b) = Num (a + b)"
| "jadd (Num a) PInf = PInf"
| "jadd (Num a) NInf = NInf"
| "jadd PInf (Num b) = PInf"
| "jadd PInf PInf = PInf"
| "jadd PInf NInf = NaN"
| "jadd NInf (Num b) = NInf"
| "jadd NInf NInf = NInf"
| "jadd NInf PInf = NaN"
| "jadd NaN b = NaN"
| "jadd a NaN = NaN"

definition jsub :: "jsnum \<Rightarrow> jsnum \<Rightarrow> jsnum" where
  "jsub a b = jadd a (jneg b)"

fun jmul :: "jsnum \<Rightarrow> jsnum \<Rightarrow> jsnum" where
  "jmul (Num a) (Num b) = Num (a * b)"
| "jmul (Num a) PInf = (if a = 0 then NaN else if 0 < a then PInf else NInf)"
| "jmul (Num a) NInf = (if a = 0 then NaN else if 0 < a then NInf else PInf)"
| "jmul PInf (Num b) = (if b = 0 then NaN else if 0 < b then PInf else NInf)"
| "jmul NInf (Num b) = (if b = 0 then NaN else if 0 < b then NInf else PInf)"
| "jmul PInf PInf = PInf"
| "jmul PInf NInf = NInf"
| "jmul NInf PInf = NInf"
| "jmul NInf NInf = PInf"
| "jmul NaN b = NaN"
| "jmul a NaN = NaN"

fun jdiv :: "jsnum \<Rightarrow> jsnum \<Rightarrow> jsnum" where
  "jdiv (Num a) (Num b) =
     (if b = 0 then (if a = 0 then NaN else if 0 < a then PInf else NInf) else Num (a / b))"
| "jdiv (Num a) PInf = Num 0"
| "jdiv (Num a) NInf = Num 0"
| "jdiv PInf (Num b) = (if 0 \<le> b then PInf else NInf)"
| "jdiv NInf (Num b) = (if 0 \<le> b then NInf else PInf)"
| "jdiv PInf PInf = NaN"
| "jdiv PInf NInf = NaN"
| "jdiv NInf PInf = NaN"
| "jdiv NInf NInf = NaN"
| "jdiv NaN b = NaN"
| "jdiv a NaN = NaN"

text \<open>\<^verbatim>\<open>Math.min\<close> of two numbers: \<^verbatim>\<open>NaN\<close> as soon as one argument is.\<close>

fun Math_min :: "jsnum \<Rightarrow> jsnum \<Rightarrow> jsnum" where
  "Math_min (Num a) (Num b) = Num (min a b)"
| "Math_min (Num a) PInf = Num a"
| "Math_min PInf (Num b) = Num b"
| "Math_min PInf PInf = PInf"
| "Math_min NaN b = NaN"
| "Math_min a NaN = NaN"
| "Math_min NInf b = NInf"
| "Math_min a NInf = NInf"

text \<open>The comparison \<^verbatim>\<open>a > b\<close>: false whenever an argument is \<^verbatim>\<open>NaN\<close>.\<close>

fun jgt :: "jsnum \<Rightarrow> jsnum \<Rightarrow> bool" where
  "jgt (Num a) (Num b) = (b < a)"
| "jgt (Num a) NInf = True"
| "jgt PInf (Num b) = True"
| "jgt PInf NInf = True"
| "jgt a b = False"

subsection \<open>Rounding to binary64\<close>

text \<open>
  The binary exponent of a number other than 0: \<open>2 ^ expo x \<le> \<bar>x\<bar> < 2 ^ (expo x + 1)\<close>.
\<close>

definition expo :: "real \<Rightarrow> int" where
  "expo x = (if 1 \<le> \<bar>x\<bar> then bitlen \<lfloor>\<bar>x\<bar>\<rfloor> - 1 else - bitlen (\<lceil>1 / \<bar>x\<bar>\<rceil> - 1))"

text \<open>The nearest whole number, a tie going to the even one.\<close>

definition rne :: "real \<Rightarrow> int" where
  "rne y =
     (let f = \<lfloor>y\<rfloor>; d = y - of_int f
      in if d < 1 / 2 then f else if 1 / 2 < d then f + 1 else if even f then f else f + 1)"

text \<open>
  The spacing of binary64 numbers around \<open>x\<close>: 53 significant bits, and the fixed spacing
  \<open>2 ^ - 1074\<close> of the subnormal numbers below \<open>2 ^ - 1022\<close>.
\<close>

definition ulp :: "real \<Rightarrow> real" where
  "ulp x = 2 powi (max (expo x) (- 1022) - 52)"

text \<open>The magnitude from which a rounded result is an infinity.\<close>

definition huge :: real where
  "huge = 2 powi 1024"

text \<open>
  Round to nearest, ties to even: the nearest multiple of the spacing, and an infinity
  when that reaches \<open>huge\<close>.
\<close>

definition round64 :: "real \<Rightarrow> jsnum" where
  "round64 x =
     (if x = 0 then Num 0
      else let y = of_int (rne (x / ulp x)) * ulp x
           in if huge \<le> \<bar>y\<bar> then (if 0 < x then PInf else NInf) else Num y)"

text \<open>The reals that are binary64 numbers.\<close>

definition isDouble :: "real \<Rightarrow> bool" where
  "isDouble x = (round64 x = Num x)"

text \<open>
  The operators \<^verbatim>\<open>/\<close>, \<^verbatim>\<open>*\<close> and \<^verbatim>\<open>-\<close> of the language: the exact result, rounded.
\<close>

fun rnd :: "jsnum \<Rightarrow> jsnum" where
  "rnd (Num a) = round64 a"
| "rnd PInf = PInf"
| "rnd NInf = NInf"
| "rnd NaN = NaN"

definition div64 :: "jsnum \<Rightarrow> jsnum \<Rightarrow> jsnum" where
  "div64 a b = rnd (jdiv a b)"

definition mul64 :: "jsnum \<Rightarrow> jsnum \<Rightarrow> jsnum" where
  "mul64 a b = rnd (jmul a b)"

definition sub64 :: "jsnum \<Rightarrow> jsnum \<Rightarrow> jsnum" where
  "sub64 a b = rnd (jsub a b)"

section \<open>Canvas calls\<close>

text \<open>
  The drawing code only talks to a \<^verbatim>\<open>CanvasRenderingContext2D\<close>. A piece of drawing code is
  modelled by the list of calls and property assignments it issues, in order. The one call
  of the code that can throw is \<^verbatim>\<open>arcTo\<close>, which raises \<^verbatim>\<open>IndexSizeError\<close> on a negative
  radius; a run that throws is \<open>Inl\<close>.
\<close>

type_synonym jsstring = "16 word list"

datatype style = Color string | LinearGradient jsnum jsnum jsnum jsnum "(jsnum \<times> string) list"

datatype cmd =
    Save
  | Restore
  | BeginPath
  | MoveTo jsnum jsnum
  | ArcTo jsnum jsnum jsnum jsnum jsnum
  | ClosePath
  | Fill
  | Stroke
  | StrokeRect jsnum jsnum jsnum jsnum
  | FillText jsstring jsnum jsnum
  | SetFillStyle style
  | SetStrokeStyle style
  | SetLineWidth jsnum
  | SetGlobalAlpha jsnum
  | SetFont string
  | SetTextAlign string
  | SetTextBaseline string

datatype canvas_error = IndexSizeError

type_synonym drawing = "canvas_error + cmd list"

fun andThen :: "drawing \<Rightarrow> drawing \<Rightarrow> drawing" where
  "andThen (Inl e) d = Inl e"
| "andThen (Inr cs) (Inl e) = Inl e"
| "andThen (Inr cs) (Inr ds) = Inr (cs @ ds)"

fun inOrder :: "drawing list \<Rightarrow> drawing" where
  "inOrder [] = Inr []"
| "inOrder (d # ds) = andThen d (inOrder ds)"

definition CANVAS_W :: jsnum where
  "CANVAS_W = Num 720"

definition CANVAS_H :: jsnum where
  "CANVAS_H = Num 1136"

section \<open>roundRect and fitContain\<close>

text \<open>
  The first two statements of \<^verbatim>\<open>roundRect\<close>:
  \<^verbatim>\<open>const min = Math.min(w, h); if (r > min / 2) r = min / 2;\<close>
  The value is the radius that the four \<^verbatim>\<open>arcTo\<close> calls receive.
\<close>

definition clampRadius :: "jsnum \<Rightarrow> jsnum \<Rightarrow> jsnum \<Rightarrow> jsnum" where
  "clampRadius w h r =
     (let m = Math_min w h in if jgt r (jdiv m (Num 2)) then jdiv m (Num 2) else r)"

text \<open>
  One \<^verbatim>\<open>ctx.arcTo(x1, y1, x2, y2, radius)\<close>. The canvas ignores the call when an argument
  is not finite, and otherwise throws on a negative radius.
\<close>

definition arcTo :: "jsnum \<Rightarrow> jsnum \<Rightarrow> jsnum \<Rightarrow> jsnum \<Rightarrow> jsnum \<Rightarrow> drawing" where
  "arcTo x1 y1 x2 y2 r =
     (if isFinite x1 \<and> isFinite y1 \<and> isFinite x2 \<and> isFinite y2 \<and> isFinite r \<and> jgt (Num 0) r
      then Inl IndexSizeError
      else Inr [ArcTo x1 y1 x2 y2 r])"

definition roundRect ::
  "jsnum \<Rightarrow> jsnum \<Rightarrow> jsnum \<Rightarrow> jsnum \<Rightarrow> jsnum \<Rightarrow> bool \<Rightarrow> bool \<Rightarrow> drawing" where
  "roundRect px py w h r fill stroke =
     (let r' = clampRadius w h r in
      inOrder
        [Inr [BeginPath, MoveTo (jadd px r') py],
         arcTo (jadd px w) py (jadd px w) (jadd py h) r',
         arcTo (jadd px w) (jadd py h) px (jadd py h) r',
         arcTo px (jadd py h) px py r',
         arcTo px py (jadd px w) py r',
         Inr [ClosePath],
         Inr (if fill then [Fill] else []),
         Inr (if stroke then [Stroke] else [])])"

text \<open>The radii handed to \<^verbatim>\<open>arcTo\<close> in a list of calls.\<close>

fun arcRadii :: "cmd list \<Rightarrow> jsnum list" where
  "arcRadii [] = []"
| "arcRadii (ArcTo x1 y1 x2 y2 r # cs) = r # arcRadii cs"
| "arcRadii (c # cs) = arcRadii cs"

text \<open>
  The object \<^verbatim>\<open>{ w, h, x, y }\<close> that \<^verbatim>\<open>fitContain\<close> returns: the scaled width and height
  and the two offsets.
\<close>

record fit =
  fit_w :: jsnum
  fit_h :: jsnum
  fit_x :: jsnum
  fit_y :: jsnum

definition fitFinite :: "fit \<Rightarrow> bool" where
  "fitFinite f = (isFinite (fit_w f) \<and> isFinite (fit_h f) \<and> isFinite (fit_x f) \<and> isFinite (fit_y f))"

text \<open>
  \<^verbatim>\<open>fitContain\<close>, statement by statement; each of its six operations rounds, and
  \<^verbatim>\<open>Math.min\<close> picks one of its arguments.
\<close>

definition fitContain :: "jsnum \<Rightarrow> jsnum \<Rightarrow> jsnum \<Rightarrow> jsnum \<Rightarrow> fit" where
  "fitContain srcW srcH dstW dstH =
     (let ratio = Math_min (div64 dstW srcW) (div64 dstH srcH);
          w = mul64 srcW ratio;
          h = mul64 srcH ratio
      in \<lparr> fit_w = w, fit_h = h,
           fit_x = div64 (sub64 dstW w) (Num 2),
           fit_y = div64 (sub64 dstH h) (Num 2) \<rparr>)"

section \<open>Strings and arrays\<close>

text \<open>
  A JavaScript string is its sequence of UTF-16 code units (\<open>jsstring\<close>);
  \<^verbatim>\<open>s.slice(0, n)\<close> is \<open>take n s\<close>. \<^verbatim>\<open>a || b\<close> on strings yields \<^verbatim>\<open>b\<close> exactly when
  \<^verbatim>\<open>a\<close> is the empty string.
\<close>

definition orElse :: "jsstring \<Rightarrow> jsstring \<Rightarrow> jsstring" where
  "orElse a b = (if a = [] then b else a)"

text \<open>
  An array of strings. An element is \<open>None\<close> where the array has a hole or holds
  \<^verbatim>\<open>undefined\<close>. Reading past the end yields \<^verbatim>\<open>undefined\<close>; writing past the end grows
  the array and leaves holes in between.
\<close>

type_synonym jsarray = "jsstring option list"

definition elemAt :: "jsarray \<Rightarrow> nat \<Rightarrow> jsstring option" where
  "elemAt xs i = (if i < length xs then xs ! i else None)"

definition assignAt :: "jsarray \<Rightarrow> nat \<Rightarrow> jsstring \<Rightarrow> jsarray" where
  "assignAt xs i v =
     (if i < length xs then xs[i := Some v]
      else xs @ replicate (i - length xs) None @ [Some v])"

text \<open>\<^verbatim>\<open>techniques[index] || ""\<close>: \<^verbatim>\<open>undefined\<close> and the empty string both give \<^verbatim>\<open>""\<close>.\<close>

fun orEmpty :: "jsstring option \<Rightarrow> jsstring" where
  "orEmpty None = []"
| "orEmpty (Some t) = orElse t []"

section \<open>The input state\<close>

datatype FrameStyle = Neo | Classic | Dark | Holo

definition DEFAULT_RACES :: "jsstring list" where
  "DEFAULT_RACES =
     [[0x9B54, 0x65CF], [0x4EBA, 0x9593], [0x7363], [0x6A5F, 0x68B0], [0x4E0D, 0x6B7B],
      [0x7CBE, 0x970A], [0x9F8D], [0x5929, 0x4F7F], [0x60AA, 0x9B54]]"

text \<open>
  The \<^verbatim>\<open>useState\<close> cells of \<^verbatim>\<open>App\<close>. \<open>classCount\<close> is a whole number: its one
  writer is the range slider, and the render loop counts columns up to it.
\<close>

record state =
  frame :: FrameStyle
  classCount :: nat
  title :: jsstring
  username :: jsstring
  monsterName :: jsstring
  exName :: jsstring
  battleMeme :: jsstring
  racePreset :: jsstring
  raceCustom :: jsstring
  techniques :: jsarray
  useDefaultIllust :: bool
  uploadURL :: "string option"
  checker :: "string option"

text \<open>The initial values. \<^verbatim>\<open>Array(24).fill("")\<close> is 24 empty strings.\<close>

definition init :: state where
  "init = \<lparr> frame = Neo, classCount = 1,
            title = [0x9B54, 0x738B, 0x30B9, 0x30DF, 0x30CE, 0x30D5],
            username = [], monsterName = [], exName = [], battleMeme = [],
            racePreset = DEFAULT_RACES ! 0, raceCustom = [],
            techniques = replicate 24 (Some []),
            useDefaultIllust = True, uploadURL = None, checker = None \<rparr>"

definition handleTechniqueChange :: "nat \<Rightarrow> jsstring \<Rightarrow> state \<Rightarrow> state" where
  "handleTechniqueChange index v s = s\<lparr> techniques := assignAt (techniques s) index v \<rparr>"

text \<open>The \<^verbatim>\<open>onClick\<close> of the reset button: ten setters, in the order of the source.\<close>

definition reset :: "state \<Rightarrow> state" where
  "reset s = s\<lparr> title := [], username := [], monsterName := [], exName := [],
               battleMeme := [], racePreset := DEFAULT_RACES ! 0, raceCustom := [],
               techniques := replicate 24 (Some []),
               useDefaultIllust := True, uploadURL := None \<rparr>"

text \<open>
  \<^verbatim>\<open>illustSrc\<close>: the placeholder when it is selected, else the upload, else the placeholder
  again. A \<^verbatim>\<open>null\<close> or empty URL is falsy.
\<close>

definition illustSrc :: "state \<Rightarrow> string option" where
  "illustSrc s =
     (if useDefaultIllust s then checker s
      else if uploadURL s \<noteq> None \<and> uploadURL s \<noteq> Some [] then uploadURL s
      else checker s)"

text \<open>
  What the page lets the user do. The class slider is a range input from 1 to 4; the
  preset list offers \<open>DEFAULT_RACES\<close>; a technique input exists for column \<open>c\<close> and
  row \<open>r\<close> when \<open>c < classCount\<close> and \<open>r < 6\<close>, and edits index \<open>c * 6 + r\<close>.
  \<open>CheckerReady\<close> is the effect that stores the placeholder image at mount,
  \<open>UploadLoaded\<close> the file reader's \<^verbatim>\<open>onload\<close>.
\<close>

datatype event =
    SetFrame FrameStyle
  | SetClassCount nat
  | SetTitle jsstring
  | SetUsername jsstring
  | SetMonsterName jsstring
  | SetExName jsstring
  | SetBattleMeme jsstring
  | SetRacePreset jsstring
  | SetRaceCustom jsstring
  | TechniqueInput nat nat jsstring
  | SetUseDefaultIllust bool
  | UploadLoaded string
  | CheckerReady string
  | Reset

fun enabled :: "state \<Rightarrow> event \<Rightarrow> bool" where
  "enabled s (SetClassCount n) = (1 \<le> n \<and> n \<le> 4)"
| "enabled s (SetRacePreset p) = (p \<in> set DEFAULT_RACES)"
| "enabled s (TechniqueInput c r v) = (c < classCount s \<and> r < 6)"
| "enabled s e = True"

fun dispatch :: "state \<Rightarrow> event \<Rightarrow> state" where
  "dispatch s (SetFrame f) = s\<lparr> frame := f \<rparr>"
| "dispatch s (SetClassCount n) = s\<lparr> classCount := n \<rparr>"
| "dispatch s (SetTitle v) = s\<lparr> title := v \<rparr>"
| "dispatch s (SetUsername v) = s\<lparr> username := v \<rparr>"
| "dispatch s (SetMonsterName v) = s\<lparr> monsterName := v \<rparr>"
| "dispatch s (SetExName v) = s\<lparr> exName := v \<rparr>"
| "dispatch s (SetBattleMeme v) = s\<lparr> battleMeme := v \<rparr>"
| "dispatch s (SetRacePreset p) = s\<lparr> racePreset := p \<rparr>"
| "dispatch s (SetRaceCustom v) = s\<lparr> raceCustom := v \<rparr>"
| "dispatch s (TechniqueInput c r v) = handleTechniqueChange (c * 6 + r) v s"
| "dispatch s (SetUseDefaultIllust b) = s\<lparr> useDefaultIllust := b \<rparr>"
| "dispatch s (UploadLoaded url) = s\<lparr> uploadURL := Some url \<rparr>"
| "dispatch s (CheckerReady url) = s\<lparr> checker := Some url \<rparr>"
| "dispatch s Reset = reset s"

text \<open>A run of the page: \<open>None\<close> when an event is not offered in the state it meets.\<close>

fun run :: "state \<Rightarrow> event list \<Rightarrow> state option" where
  "run s [] = Some s"
| "run s (e # es) = (if enabled s e then run (dispatch s e) es else None)"

section \<open>The render pass: header strip and technique grid\<close>

text \<open>
  The redraw effect paints five sections in a row, each between \<^verbatim>\<open>ctx.save()\<close> and
  \<^verbatim>\<open>ctx.restore()\<close>. Sections 3 (header strip) and 5 (technique grid) follow, with the
  local constants of the effect as definitions of their own.
\<close>

definition calls :: "drawing \<Rightarrow> cmd list" where
  "calls d = (case d of Inl e \<Rightarrow> [] | Inr cs \<Rightarrow> cs)"

definition completes :: "drawing \<Rightarrow> bool" where
  "completes d = (case d of Inl e \<Rightarrow> False | Inr cs \<Rightarrow> True)"

definition headerH :: jsnum where
  "headerH = Num 132"

definition headerX :: jsnum where
  "headerX = Num 32"

definition headerY :: jsnum where
  "headerY = Num 64"

definition headerW :: jsnum where
  "headerW = jsub CANVAS_W (jmul headerX (Num 2))"

definition raceText :: "state \<Rightarrow> jsstring" where
  "raceText s = take 6 (orElse (raceCustom s) (orElse (racePreset s) []))"

definition tagMarginRight :: jsnum where
  "tagMarginRight = Num 40"

definition tagW :: "state \<Rightarrow> jsnum" where
  "tagW s = (if raceText s \<noteq> [] then Num 64 else Num 0)"

definition tagH :: "state \<Rightarrow> jsnum" where
  "tagH s = (if raceText s \<noteq> [] then jsub headerH (Num 16) else Num 0)"

definition reservedRight :: "state \<Rightarrow> jsnum" where
  "reservedRight s =
     (if raceText s \<noteq> [] then jadd (jadd (tagW s) tagMarginRight) (Num 8) else Num 0)"

text \<open>Where the user name is anchored (\<^verbatim>\<open>textAlign = "right"\<close>: the text ends there).\<close>

definition usernameX :: "state \<Rightarrow> jsnum" where
  "usernameX s = jsub (jsub (jadd headerX headerW) (Num 16)) (reservedRight s)"

text \<open>The left edge of the race tag's box.\<close>

definition tagX :: "state \<Rightarrow> jsnum" where
  "tagX s = jsub (jsub CANVAS_W (tagW s)) tagMarginRight"

definition raceTag :: "state \<Rightarrow> drawing" where
  "raceTag s =
     (if raceText s \<noteq> [] then
        inOrder
          [Inr [SetFillStyle (Color ''#ef4444'')],
           roundRect (tagX s) (jadd headerY (Num 8)) (tagW s) (tagH s) (Num 8) True False,
           Inr [SetFillStyle (Color ''#fff''),
                SetFont ''bold 24px system-ui, -apple-system, Segoe UI, Roboto'',
                SetTextAlign ''center'',
                SetTextBaseline ''middle'',
                FillText (raceText s)
                  (jsub (jsub CANVAS_W (jdiv (tagW s) (Num 2))) tagMarginRight)
                  (jadd headerY (jdiv headerH (Num 2)))]]
      else Inr [])"

definition header :: "state \<Rightarrow> drawing" where
  "header s =
     inOrder
       [Inr [Save,
             SetFillStyle
               (LinearGradient headerX headerY headerX (jadd headerY headerH)
                  [(Num 0, ''#111827''), (Num 1, ''#0b1220'')])],
        roundRect headerX headerY headerW headerH (Num 16) True False,
        Inr [SetFillStyle (Color ''#e5e7eb''),
             SetTextBaseline ''middle'',
             SetFont ''bold 22px system-ui, -apple-system, Segoe UI, Roboto'',
             SetTextAlign ''left'',
             FillText (orElse (title s) []) (jadd headerX (Num 16)) (jadd headerY (Num 34)),
             SetTextAlign ''right'',
             FillText (orElse (username s) []) (usernameX s) (jadd headerY (Num 34)),
             SetTextAlign ''center'',
             SetFont ''bold 40px system-ui, -apple-system, Segoe UI, Roboto'',
             FillText (orElse (monsterName s) [])
               (jadd headerX (jdiv headerW (Num 2)))
               (jadd (jadd headerY (jdiv headerH (Num 2))) (Num 22))],
        raceTag s,
        Inr [Restore]]"

definition rows :: nat where
  "rows = 6"

definition gridW :: jsnum where
  "gridW = jsub CANVAS_W (Num 96)"

definition gridH :: jsnum where
  "gridH = Num 240"

definition gx :: jsnum where
  "gx = Num 48"

definition gy :: jsnum where
  "gy = jsub (jsub CANVAS_H gridH) (Num 64)"

definition cellW :: "state \<Rightarrow> jsnum" where
  "cellW s = jdiv gridW (Num (real (classCount s)))"

definition cellH :: jsnum where
  "cellH = jdiv gridH (Num (real rows))"

definition cellX :: "state \<Rightarrow> nat \<Rightarrow> jsnum" where
  "cellX s c = jadd gx (jmul (Num (real c)) (cellW s))"

definition cellY :: "nat \<Rightarrow> jsnum" where
  "cellY r = jadd gy (jmul (Num (real r)) cellH)"

text \<open>The text of the cell in column \<open>c\<close>, row \<open>r\<close>, and the body of the inner loop.\<close>

definition cellText :: "state \<Rightarrow> nat \<Rightarrow> nat \<Rightarrow> jsstring" where
  "cellText s c r = take 18 (orEmpty (elemAt (techniques s) (c * rows + r)))"

definition gridCell :: "state \<Rightarrow> nat \<Rightarrow> nat \<Rightarrow> cmd list" where
  "gridCell s c r =
     [SetStrokeStyle (Color ''#475569''),
      SetLineWidth (Num 1),
      StrokeRect (cellX s c) (cellY r) (cellW s) cellH,
      SetFillStyle (Color ''#e5e7eb''),
      FillText (cellText s c r) (jadd (cellX s c) (Num 8)) (jadd (cellY r) (jdiv cellH (Num 2)))]"

text \<open>
  The two counted loops, \<open>c\<close> from 0 below \<open>classCount\<close> and \<open>r\<close> from 0 below
  \<open>rows\<close>, as maps over the ranges.
\<close>

definition gridCells :: "state \<Rightarrow> cmd list" where
  "gridCells s =
     concat (map (\<lambda>c. concat (map (\<lambda>r. gridCell s c r) [0..<rows])) [0..<classCount s])"

definition techniqueGrid :: "state \<Rightarrow> drawing" where
  "techniqueGrid s =
     inOrder
       [Inr [Save, SetGlobalAlpha (Num (9 / 10)), SetFillStyle (Color ''#1f2937'')],
        roundRect (jsub gx (Num 8)) (jsub gy (Num 8)) (jadd gridW (Num 16))
          (jadd gridH (Num 16)) (Num 12) True False,
        Inr [SetGlobalAlpha (Num 1),
             SetFont ''16px system-ui, -apple-system, Segoe UI, Roboto'',
             SetTextAlign ''left'',
             SetTextBaseline ''middle''],
        Inr (gridCells s),
        Inr [Restore]]"

section \<open>What the calls paint\<close>

text \<open>
  The drawing state of the canvas that the code sets, the stack of \<^verbatim>\<open>save\<close> and
  \<^verbatim>\<open>restore\<close>, and the current path. Running a list of calls through them gives what is
  painted, in order: a filled or stroked path, a stroked rectangle, or a text with the
  alignment, baseline, font and fill in force at its call.
\<close>

record pen =
  fillStyle :: style
  strokeStyle :: style
  lineWidth :: jsnum
  globalAlpha :: jsnum
  font :: string
  textAlign :: string
  textBaseline :: string

definition defaultPen :: pen where
  "defaultPen = \<lparr> fillStyle = Color ''#000000'', strokeStyle = Color ''#000000'',
       lineWidth = Num 1, globalAlpha = Num 1, font = ''10px sans-serif'',
       textAlign = ''start'', textBaseline = ''alphabetic'' \<rparr>"

datatype mark =
    FilledPath style "cmd list"
  | StrokedPath style jsnum "cmd list"
  | StrokedRect style jsnum jsnum jsnum jsnum jsnum
  | DrawnText jsstring jsnum jsnum string string string style

fun paint :: "pen \<Rightarrow> pen list \<Rightarrow> cmd list \<Rightarrow> cmd list \<Rightarrow> mark list" where
  "paint p st path [] = []"
| "paint p st path (Save # cs) = paint p (p # st) path cs"
| "paint p st path (Restore # cs) =
     (case st of [] \<Rightarrow> paint p [] path cs | q # st' \<Rightarrow> paint q st' path cs)"
| "paint p st path (BeginPath # cs) = paint p st [] cs"
| "paint p st path (MoveTo px py # cs) = paint p st (path @ [MoveTo px py]) cs"
| "paint p st path (ArcTo x1 y1 x2 y2 r # cs) = paint p st (path @ [ArcTo x1 y1 x2 y2 r]) cs"
| "paint p st path (ClosePath # cs) = paint p st (path @ [ClosePath]) cs"
| "paint p st path (Fill # cs) = FilledPath (fillStyle p) path # paint p st path cs"
| "paint p st path (Stroke # cs) =
     StrokedPath (strokeStyle p) (lineWidth p) path # paint p st path cs"
| "paint p st path (StrokeRect px py w h # cs) =
     StrokedRect (strokeStyle p) (lineWidth p) px py w h # paint p st path cs"
| "paint p st path (FillText t px py # cs) =
     DrawnText t px py (textAlign p) (textBaseline p) (font p) (fillStyle p) # paint p st path cs"
| "paint p st path (SetFillStyle v # cs) = paint (p\<lparr> fillStyle := v \<rparr>) st path cs"
| "paint p st path (SetStrokeStyle v # cs) = paint (p\<lparr> strokeStyle := v \<rparr>) st path cs"
| "paint p st path (SetLineWidth v # cs) = paint (p\<lparr> lineWidth := v \<rparr>) st path cs"
| "paint p st path (SetGlobalAlpha v # cs) = paint (p\<lparr> globalAlpha := v \<rparr>) st path cs"
| "paint p st path (SetFont v # cs) = paint (p\<lparr> font := v \<rparr>) st path cs"
| "paint p st path (SetTextAlign v # cs) = paint (p\<lparr> textAlign := v \<rparr>) st path cs"
| "paint p st path (SetTextBaseline v # cs) = paint (p\<lparr> textBaseline := v \<rparr>) st path cs"

definition marks :: "cmd list \<Rightarrow> mark list" where
  "marks cs = paint defaultPen [] [] cs"

text \<open>
  The path of a rounded box with left edge \<open>bx\<close>, top edge \<open>bt\<close>, width \<open>w\<close>, height
  \<open>h\<close> and corner radius \<open>r\<close>, as \<^verbatim>\<open>roundRect\<close> traces it.
\<close>

definition boxPath :: "real \<Rightarrow> real \<Rightarrow> real \<Rightarrow> real \<Rightarrow> real \<Rightarrow> cmd list" where
  "boxPath bx bt w h r =
     [MoveTo (Num (bx + r)) (Num bt),
      ArcTo (Num (bx + w)) (Num bt) (Num (bx + w)) (Num (bt + h)) (Num r),
      ArcTo (Num (bx + w)) (Num (bt + h)) (Num bx) (Num (bt + h)) (Num r),
      ArcTo (Num bx) (Num (bt + h)) (Num bx) (Num bt) (Num r),
      ArcTo (Num bx) (Num bt) (Num (bx + w)) (Num bt) (Num r),
      ClosePath]"

text \<open>The x coordinates of the points of a path.\<close>

fun pathXs :: "cmd list \<Rightarrow> jsnum list" where
  "pathXs [] = []"
| "pathXs (MoveTo px py # cs) = px # pathXs cs"
| "pathXs (ArcTo x1 y1 x2 y2 r # cs) = x1 # x2 # pathXs cs"
| "pathXs (c # cs) = pathXs cs"

text \<open>
  The right edge of a text of width \<open>wd\<close> drawn at \<open>px\<close>: the anchor itself when the
  text is right-aligned.
\<close>

definition textRight :: "string \<Rightarrow> jsnum \<Rightarrow> real \<Rightarrow> jsnum" where
  "textRight align px wd =
     (if align = ''right'' then px
      else if align = ''center'' then jadd px (Num (wd / 2))
      else jadd px (Num wd))"

section \<open>Properties of the state used below\<close>

text \<open>The shape every state of a run has, and the events that write the technique array.\<close>

definition wellFormed :: "state \<Rightarrow> bool" where
  "wellFormed s = (length (techniques s) = 24 \<and> 1 \<le> classCount s \<and> classCount s \<le> 4)"

fun writesTechniques :: "event \<Rightarrow> bool" where
  "writesTechniques (TechniqueInput c r v) = True"
| "writesTechniques Reset = True"
| "writesTechniques e = False"

section \<open>Lemmas\<close>

subsection \<open>Arrays and runs\<close>

lemma length_assignAt: "i < length xs \<Longrightarrow> length (assignAt xs i v) = length xs"
  by (simp add: assignAt_def)

lemma elemAt_assignAt_same: "elemAt (assignAt xs i v) i = Some v"
  by (simp add: elemAt_def assignAt_def nth_append)

lemma elemAt_assignAt_other: "j \<noteq> i \<Longrightarrow> elemAt (assignAt xs i v) j = elemAt xs j"
  by (auto simp add: elemAt_def assignAt_def nth_append)

lemma wellFormed_init: "wellFormed init"
  by (simp add: wellFormed_def init_def)

lemma wellFormed_dispatch: "wellFormed s \<Longrightarrow> enabled s e \<Longrightarrow> wellFormed (dispatch s e)"
  by (cases e) (auto simp add: wellFormed_def handleTechniqueChange_def reset_def length_assignAt)

lemma wellFormed_run: "wellFormed s \<Longrightarrow> run s es = Some s' \<Longrightarrow> wellFormed s'"
proof (induction es arbitrary: s)
  case Nil
  then show ?case by simp
next
  case (Cons e es)
  then show ?case
    by (auto split: if_splits intro: wellFormed_dispatch)
qed

lemma dispatch_keeps: "\<not> writesTechniques e \<Longrightarrow> techniques (dispatch s e) = techniques s"
  by (cases e) auto

lemma run_keeps:
  "run s es = Some s' \<Longrightarrow> list_all (\<lambda>e. \<not> writesTechniques e) es \<Longrightarrow> techniques s' = techniques s"
proof (induction es arbitrary: s)
  case Nil
  then show ?case by simp
next
  case (Cons e es)
  then show ?case
    by (auto split: if_splits simp: dispatch_keeps)
qed

subsection \<open>The technique grid, call by call\<close>

lemma texts_gridCells:
  "FillText t px py \<in> set (gridCells s) \<longleftrightarrow>
     (\<exists>c<classCount s. \<exists>r<rows. t = cellText s c r \<and> px = jadd (cellX s c) (Num 8)
          \<and> py = jadd (cellY r) (jdiv cellH (Num 2)))"
  by (simp add: gridCells_def gridCell_def Bex_def)

lemma boxes_gridCells:
  "StrokeRect px py pw ph \<in> set (gridCells s) \<longleftrightarrow>
     (\<exists>c<classCount s. \<exists>r<rows. px = cellX s c \<and> py = cellY r \<and> pw = cellW s \<and> ph = cellH)"
  by (simp add: gridCells_def gridCell_def Bex_def) blast

lemma techniqueGrid_eq:
  "techniqueGrid s =
     Inr ([Save, SetGlobalAlpha (Num (9 / 10)), SetFillStyle (Color ''#1f2937''),
           BeginPath, MoveTo (Num 52) (Num 824),
           ArcTo (Num 680) (Num 824) (Num 680) (Num 1080) (Num 12),
           ArcTo (Num 680) (Num 1080) (Num 40) (Num 1080) (Num 12),
           ArcTo (Num 40) (Num 1080) (Num 40) (Num 824) (Num 12),
           ArcTo (Num 40) (Num 824) (Num 680) (Num 824) (Num 12),
           ClosePath, Fill,
           SetGlobalAlpha (Num 1),
           SetFont ''16px system-ui, -apple-system, Segoe UI, Roboto'',
           SetTextAlign ''left'', SetTextBaseline ''middle'']
          @ gridCells s @ [Restore])"
  by (simp add: techniqueGrid_def roundRect_def clampRadius_def arcTo_def gx_def gy_def
      gridW_def gridH_def CANVAS_W_def CANVAS_H_def jsub_def Let_def)

lemma completes_techniqueGrid: "completes (techniqueGrid s)"
  by (simp add: techniqueGrid_eq completes_def)

lemma cellW_eq: "0 < classCount s \<Longrightarrow> cellW s = Num (624 / real (classCount s))"
  by (simp add: cellW_def gridW_def CANVAS_W_def jsub_def)

lemma cellX_eq: "0 < classCount s \<Longrightarrow> cellX s c = Num (48 + real c * (624 / real (classCount s)))"
  by (simp add: cellX_def cellW_def gx_def gridW_def CANVAS_W_def jsub_def)

lemma cellY_eq: "cellY r = Num (832 + real r * 40)"
  by (simp add: cellY_def cellH_def gy_def gridH_def CANVAS_H_def jsub_def rows_def)

lemma cellH_eq: "cellH = Num 40"
  by (simp add: cellH_def gridH_def rows_def)

lemma texts_techniqueGrid:
  "FillText t px py \<in> set (calls (techniqueGrid s)) \<longleftrightarrow>
     (\<exists>c<classCount s. \<exists>r<rows. t = cellText s c r \<and> px = jadd (cellX s c) (Num 8)
          \<and> py = jadd (cellY r) (jdiv cellH (Num 2)))"
  by (simp add: techniqueGrid_eq calls_def texts_gridCells)

lemma boxes_techniqueGrid:
  "StrokeRect px py pw ph \<in> set (calls (techniqueGrid s)) \<longleftrightarrow>
     (\<exists>c<classCount s. \<exists>r<rows. px = cellX s c \<and> py = cellY r \<and> pw = cellW s \<and> ph = cellH)"
  by (simp add: techniqueGrid_eq calls_def boxes_gridCells)

text \<open>
  Cells do not share their text anchor: the anchor of column \<open>c\<close>, row \<open>r\<close> carries the
  text of that cell and no other.
\<close>

lemma text_at_cell:
  assumes "c < classCount s" "r < rows"
  shows "FillText t (jadd (cellX s c) (Num 8)) (jadd (cellY r) (jdiv cellH (Num 2)))
           \<in> set (calls (techniqueGrid s)) \<longleftrightarrow> t = cellText s c r"
proof -
  have pos: "0 < classCount s" using assms by simp
  have "c' = c \<and> r' = r"
    if "c' < classCount s" "jadd (cellX s c) (Num 8) = jadd (cellX s c') (Num 8)"
       "jadd (cellY r) (jdiv cellH (Num 2)) = jadd (cellY r') (jdiv cellH (Num 2))" for c' r'
    using that pos by (simp add: cellX_eq cellY_eq cellH_eq)
  then show ?thesis
    using assms unfolding texts_techniqueGrid by blast
qed

lemma length_cellText: "length (cellText s c r) \<le> 18"
  by (simp add: cellText_def)

lemma cellText_Some: "elemAt (techniques s) (c * 6 + r) = Some t \<Longrightarrow> cellText s c r = take 18 t"
  by (simp add: cellText_def rows_def orElse_def)

lemma cellText_None: "elemAt (techniques s) (c * 6 + r) = None \<Longrightarrow> cellText s c r = []"
  by (simp add: cellText_def rows_def)

subsection \<open>The header strip, call by call\<close>

lemma header_eq:
  "header s =
     Inr ([Save,
           SetFillStyle (LinearGradient (Num 32) (Num 64) (Num 32) (Num 196)
             [(Num 0, ''#111827''), (Num 1, ''#0b1220'')]),
           BeginPath, MoveTo (Num 48) (Num 64),
           ArcTo (Num 688) (Num 64) (Num 688) (Num 196) (Num 16),
           ArcTo (Num 688) (Num 196) (Num 32) (Num 196) (Num 16),
           ArcTo (Num 32) (Num 196) (Num 32) (Num 64) (Num 16),
           ArcTo (Num 32) (Num 64) (Num 688) (Num 64) (Num 16),
           ClosePath, Fill,
           SetFillStyle (Color ''#e5e7eb''),
           SetTextBaseline ''middle'',
           SetFont ''bold 22px system-ui, -apple-system, Segoe UI, Roboto'',
           SetTextAlign ''left'',
           FillText (title s) (Num 48) (Num 98),
           SetTextAlign ''right'',
           FillText (username s) (usernameX s) (Num 98),
           SetTextAlign ''center'',
           SetFont ''bold 40px system-ui, -apple-system, Segoe UI, Roboto'',
           FillText (monsterName s) (Num 360) (Num 152)]
          @ (if raceText s \<noteq> [] then
               [SetFillStyle (Color ''#ef4444''),
                BeginPath, MoveTo (Num 624) (Num 72),
                ArcTo (Num 680) (Num 72) (Num 680) (Num 188) (Num 8),
                ArcTo (Num 680) (Num 188) (Num 616) (Num 188) (Num 8),
                ArcTo (Num 616) (Num 188) (Num 616) (Num 72) (Num 8),
                ArcTo (Num 616) (Num 72) (Num 680) (Num 72) (Num 8),
                ClosePath, Fill,
                SetFillStyle (Color ''#fff''),
                SetFont ''bold 24px system-ui, -apple-system, Segoe UI, Roboto'',
                SetTextAlign ''center'',
                SetTextBaseline ''middle'',
                FillText (raceText s) (Num 648) (Num 130)]
             else [])
          @ [Restore])"
  by (simp add: header_def raceTag_def roundRect_def clampRadius_def arcTo_def
      headerX_def headerY_def headerW_def headerH_def tagX_def tagW_def tagH_def
      tagMarginRight_def CANVAS_W_def jsub_def orElse_def Let_def)

lemma reservedRight_eq: "reservedRight s = (if raceText s \<noteq> [] then Num 112 else Num 0)"
  by (simp add: reservedRight_def tagW_def tagMarginRight_def)

lemma usernameX_eq: "usernameX s = (if raceText s \<noteq> [] then Num 560 else Num 672)"
  by (simp add: usernameX_def reservedRight_eq headerX_def headerW_def CANVAS_W_def jsub_def)

lemma tagX_eq: "tagX s = (if raceText s \<noteq> [] then Num 616 else Num 680)"
  by (simp add: tagX_def tagW_def tagMarginRight_def CANVAS_W_def jsub_def)

lemma raceText_eq:
  "raceText s = take 6 (if raceCustom s \<noteq> [] then raceCustom s else racePreset s)"
  by (simp add: raceText_def orElse_def)

subsection \<open>roundRect on finite numbers\<close>

lemma clampRadius_Num: "clampRadius (Num w) (Num h) (Num r) = Num (min r (min w h / 2))"
  by (simp add: clampRadius_def Let_def min_def)

lemma roundRect_nonneg:
  "0 \<le> min r (min w h / 2) \<Longrightarrow>
     \<exists>cs. roundRect (Num px) (Num py) (Num w) (Num h) (Num r) fill stroke = Inr cs
        \<and> arcRadii cs = replicate 4 (Num (min r (min w h / 2)))"
  by (auto simp add: roundRect_def clampRadius_Num arcTo_def Let_def numeral_eq_Suc)

lemma roundRect_neg:
  "min r (min w h / 2) < 0 \<Longrightarrow>
     roundRect (Num px) (Num py) (Num w) (Num h) (Num r) fill stroke = Inl IndexSizeError"
  by (auto simp add: roundRect_def clampRadius_Num arcTo_def Let_def)

subsection \<open>What the header paints\<close>

lemma marks_header:
  "marks (calls (header s)) =
     [FilledPath (LinearGradient (Num 32) (Num 64) (Num 32) (Num 196)
          [(Num 0, ''#111827''), (Num 1, ''#0b1220'')])
        (boxPath 32 64 656 132 16),
      DrawnText (title s) (Num 48) (Num 98) ''left'' ''middle''
        ''bold 22px system-ui, -apple-system, Segoe UI, Roboto'' (Color ''#e5e7eb''),
      DrawnText (username s) (usernameX s) (Num 98) ''right'' ''middle''
        ''bold 22px system-ui, -apple-system, Segoe UI, Roboto'' (Color ''#e5e7eb''),
      DrawnText (monsterName s) (Num 360) (Num 152) ''center'' ''middle''
        ''bold 40px system-ui, -apple-system, Segoe UI, Roboto'' (Color ''#e5e7eb'')]
     @ (if raceText s \<noteq> [] then
          [FilledPath (Color ''#ef4444'') (boxPath 616 72 64 116 8),
           DrawnText (raceText s) (Num 648) (Num 130) ''center'' ''middle''
             ''bold 24px system-ui, -apple-system, Segoe UI, Roboto'' (Color ''#fff'')]
        else [])"
  by (simp add: header_eq calls_def marks_def defaultPen_def boxPath_def)

subsection \<open>Powers of two and the binary exponent\<close>

lemma pow2_less_iff: "(2::real) powi a < 2 powi b \<longleftrightarrow> a < b"
proof
  assume l: "(2::real) powi a < 2 powi b"
  show "a < b"
  proof (rule ccontr)
    assume "\<not> a < b"
    then have "b \<le> a" by simp
    then have "(2::real) powi b \<le> 2 powi a" by (intro power_int_increasing) simp_all
    then show False using l by linarith
  qed
next
  assume "a < b"
  then show "(2::real) powi a < 2 powi b" by (intro power_int_strict_increasing) simp_all
qed

lemma pow2_le_iff: "(2::real) powi a \<le> 2 powi b \<longleftrightarrow> a \<le> b"
  using pow2_less_iff [of b a] by (auto simp: not_less [symmetric])

lemma pow2_pos: "0 < (2::real) powi a"
  by simp

lemma pow2_le_abs_nz:
  assumes "2 powi e \<le> \<bar>x::real\<bar>"
  shows "x \<noteq> 0"
proof
  assume "x = 0"
  then have "2 powi e \<le> (0::real)" using assms by simp
  moreover have "0 < (2::real) powi e" by simp
  ultimately show False by linarith
qed

lemma expo_lower:
  assumes "x \<noteq> 0"
  shows "2 powi expo x \<le> \<bar>x\<bar>"
proof (cases "1 \<le> \<bar>x\<bar>")
  case True
  define n where "n = \<lfloor>\<bar>x\<bar>\<rfloor>"
  have n: "0 < n" using True by (simp add: n_def)
  have k: "1 \<le> bitlen n" using n by (simp add: bitlen_alt_def)
  have "(2::int) ^ nat (bitlen n - 1) \<le> n" using bitlen_bounds [OF n] by simp
  then have "real_of_int (2 ^ nat (bitlen n - 1)) \<le> real_of_int n" by (rule of_int_le_iff [THEN iffD2])
  also have "\<dots> \<le> \<bar>x\<bar>" by (simp add: n_def)
  finally have "(2::real) ^ nat (bitlen n - 1) \<le> \<bar>x\<bar>" by simp
  moreover have "expo x = bitlen n - 1" using True by (simp add: expo_def n_def)
  ultimately show ?thesis using k by (simp add: power_int_def)
next
  case False
  define y where "y = 1 / \<bar>x\<bar>"
  define m where "m = \<lceil>y\<rceil> - 1"
  have x: "0 < \<bar>x\<bar>" "\<bar>x\<bar> < 1" using assms False by simp_all
  have y: "1 < y" using x by (simp add: y_def)
  have m: "0 < m" using y by (simp add: m_def)
  have k: "1 \<le> bitlen m" using m by (simp add: bitlen_alt_def)
  have "m < 2 ^ nat (bitlen m)" using bitlen_bounds [OF m] by simp
  then have "m + 1 \<le> 2 ^ nat (bitlen m)" by simp
  then have "real_of_int (m + 1) \<le> real_of_int (2 ^ nat (bitlen m))" by (rule of_int_le_iff [THEN iffD2])
  moreover have "y \<le> real_of_int (m + 1)" by (simp add: m_def)
  ultimately have "y \<le> 2 ^ nat (bitlen m)" by simp
  then have "1 / 2 ^ nat (bitlen m) \<le> \<bar>x\<bar>"
    using x by (simp add: y_def field_simps)
  moreover have "expo x = - bitlen m" using False by (simp add: expo_def m_def y_def)
  ultimately show ?thesis using k by (simp add: power_int_def field_simps)
qed

lemma expo_upper:
  assumes "x \<noteq> 0"
  shows "\<bar>x\<bar> < 2 powi (expo x + 1)"
proof (cases "1 \<le> \<bar>x\<bar>")
  case True
  define n where "n = \<lfloor>\<bar>x\<bar>\<rfloor>"
  have n: "0 < n" using True by (simp add: n_def)
  have k: "1 \<le> bitlen n" using n by (simp add: bitlen_alt_def)
  have "n < 2 ^ nat (bitlen n)" using bitlen_bounds [OF n] by simp
  then have "n + 1 \<le> 2 ^ nat (bitlen n)" by simp
  then have "real_of_int (n + 1) \<le> real_of_int (2 ^ nat (bitlen n))" by (rule of_int_le_iff [THEN iffD2])
  moreover have "\<bar>x\<bar> < real_of_int (n + 1)" by (simp add: n_def)
  ultimately have "\<bar>x\<bar> < 2 ^ nat (bitlen n)" by simp
  moreover have "expo x = bitlen n - 1" using True by (simp add: expo_def n_def)
  ultimately show ?thesis using k by (simp add: power_int_def)
next
  case False
  define y where "y = 1 / \<bar>x\<bar>"
  define m where "m = \<lceil>y\<rceil> - 1"
  have x: "0 < \<bar>x\<bar>" "\<bar>x\<bar> < 1" using assms False by simp_all
  have y: "1 < y" using x by (simp add: y_def)
  have m: "0 < m" using y by (simp add: m_def)
  have k: "1 \<le> bitlen m" using m by (simp add: bitlen_alt_def)
  have "(2::int) ^ nat (bitlen m - 1) \<le> m" using bitlen_bounds [OF m] by simp
  then have "(2::real) ^ nat (bitlen m - 1) \<le> real_of_int m"
    by (metis of_int_le_iff of_int_numeral of_int_power)
  moreover have "real_of_int m < y" unfolding m_def by linarith
  ultimately have "2 ^ nat (bitlen m - 1) < y" by linarith
  then have lt: "\<bar>x\<bar> < 1 / 2 ^ nat (bitlen m - 1)"
    using x by (simp add: y_def field_simps)
  have e: "expo x = - bitlen m" using False by (simp add: expo_def m_def y_def)
  have "(2::real) powi (expo x + 1) = 1 / 2 ^ nat (bitlen m - 1)"
  proof -
    have "expo x + 1 = - (bitlen m - 1)" using e by simp
    then have "(2::real) powi (expo x + 1) = 2 powi (- (bitlen m - 1))" by simp
    also have "\<dots> = 1 / 2 powi (bitlen m - 1)" by (rule power_int_minus_divide)
    also have "\<dots> = 1 / 2 ^ nat (bitlen m - 1)" using k by (simp add: power_int_def)
    finally show ?thesis .
  qed
  then show ?thesis using lt by simp
qed

lemma expo_unique:
  assumes "2 powi e \<le> \<bar>x\<bar>" "\<bar>x\<bar> < 2 powi (e + 1)"
  shows "expo x = e"
proof -
  have nz: "x \<noteq> 0"
  proof
    assume "x = 0"
    then have "2 powi e \<le> (0::real)" using assms(1) by simp
    moreover have "0 < (2::real) powi e" by simp
    ultimately show False by linarith
  qed
  have "(2::real) powi e < 2 powi (expo x + 1)"
    using assms(1) expo_upper [OF nz] by linarith
  then have a: "e < expo x + 1" by (simp only: pow2_less_iff)
  have "(2::real) powi expo x < 2 powi (e + 1)"
    using assms(2) expo_lower [OF nz] by linarith
  then have b: "expo x < e + 1" by (simp only: pow2_less_iff)
  show ?thesis using a b by simp
qed

subsection \<open>Rounding to a whole number\<close>

lemma rne_close: "\<bar>of_int (rne y) - y\<bar> \<le> 1 / 2"
proof -
  have "of_int \<lfloor>y\<rfloor> \<le> y" "y < of_int \<lfloor>y\<rfloor> + 1" by linarith+
  then show ?thesis
    by (auto simp add: rne_def Let_def abs_le_iff)
qed

lemma rne_unique:
  assumes "\<bar>y - of_int k\<bar> < 1 / 2"
  shows "rne y = k"
proof -
  have c: "\<bar>of_int (rne y) - y\<bar> \<le> 1 / 2" by (rule rne_close)
  have "\<bar>real_of_int (rne y) - real_of_int k\<bar> < 1" using assms c by linarith
  then have "\<bar>real_of_int (rne y - k)\<bar> < 1" by simp
  then have "\<bar>rne y - k\<bar> < 1" by linarith
  then show ?thesis by simp
qed

lemma rne_of_int: "rne (of_int k) = k"
  by (rule rne_unique) simp

lemma rne_le:
  assumes "y \<le> of_int k"
  shows "rne y \<le> k"
proof -
  have "\<lfloor>y\<rfloor> \<le> k" using assms by (simp add: floor_le_iff) 
  show ?thesis
  proof (cases "\<lfloor>y\<rfloor> = k")
    case True
    then have "y = of_int k" using assms by (metis order_antisym of_int_floor_le)
    then show ?thesis by (simp add: rne_of_int)
  next
    case False
    then have "\<lfloor>y\<rfloor> + 1 \<le> k" using \<open>\<lfloor>y\<rfloor> \<le> k\<close> by simp
    moreover have "rne y \<le> \<lfloor>y\<rfloor> + 1" by (simp add: rne_def Let_def)
    ultimately show ?thesis by simp
  qed
qed

lemma rne_ge:
  assumes "of_int k \<le> y"
  shows "k \<le> rne y"
proof -
  have "k \<le> \<lfloor>y\<rfloor>" using assms by (simp add: le_floor_iff)
  moreover have "\<lfloor>y\<rfloor> \<le> rne y" by (simp add: rne_def Let_def)
  ultimately show ?thesis by simp
qed

lemma rne_abs_le:
  assumes "\<bar>y\<bar> \<le> of_int k"
  shows "\<bar>rne y\<bar> \<le> k"
proof -
  have a: "y \<le> of_int k" and b: "of_int (- k) \<le> y" using assms by simp_all
  have "rne y \<le> k" using a by (rule rne_le)
  moreover have "- k \<le> rne y" using b by (rule rne_ge)
  ultimately show ?thesis by simp
qed

subsection \<open>Rounding to binary64\<close>

lemma round64_NumI:
  assumes "x \<noteq> 0" "of_int (rne (x / ulp x)) * ulp x = y" "\<not> huge \<le> \<bar>y\<bar>"
  shows "round64 x = Num y"
  using assms by (simp add: round64_def Let_def)

lemma round64_NumD:
  assumes "round64 x = Num y" "x \<noteq> 0"
  shows "of_int (rne (x / ulp x)) * ulp x = y" "\<not> huge \<le> \<bar>y\<bar>"
  using assms by (auto simp add: round64_def Let_def split: if_splits)

lemma ulp_bracket:
  assumes "2 powi e \<le> \<bar>x\<bar>" "\<bar>x\<bar> < 2 powi (e + 1)" "- 1022 \<le> e"
  shows "ulp x = 2 powi (e - 52)"
  using expo_unique [OF assms(1,2)] assms(3) by (simp add: ulp_def max_def)

lemma ulp_pos: "0 < ulp x"
  by (simp add: ulp_def)

text \<open>A real of at most \<open>2 ^ 53\<close> spacings rounds to a finite number of at most as many.\<close>

lemma round64_grid:
  assumes "x \<noteq> 0" "ulp x = 2 powi (E - 52)" "\<bar>x\<bar> \<le> 2 powi (E + 1)" "E \<le> 1022"
  shows "round64 x = Num (of_int (rne (x / ulp x)) * ulp x)"
    and "\<bar>of_int (rne (x / ulp x)) * ulp x\<bar> \<le> 2 powi (E + 1)"
proof -
  let ?U = "ulp x"
  let ?k = "rne (x / ?U)"
  have U: "0 < ?U" by (rule ulp_pos)
  have "2 powi (E + 1) = 2 ^ 53 * ?U"
    unfolding assms(2) by (simp add: power_int_diff power_int_add)
  then have "\<bar>x\<bar> \<le> 2 ^ 53 * ?U" using assms(3) by simp
  then have "\<bar>x / ?U\<bar> \<le> of_int (2 ^ 53)" using U by (simp add: field_simps)
  then have k: "\<bar>?k\<bar> \<le> 2 ^ 53" by (rule rne_abs_le)
  then have "\<bar>real_of_int ?k\<bar> \<le> 2 ^ 53"
    by (metis of_int_abs of_int_le_iff of_int_numeral of_int_power)
  then have "\<bar>of_int ?k * ?U\<bar> \<le> 2 ^ 53 * ?U"
    using U by (simp add: abs_mult mult_right_mono)
  then show b: "\<bar>of_int ?k * ?U\<bar> \<le> 2 powi (E + 1)"
    using \<open>2 powi (E + 1) = 2 ^ 53 * ?U\<close> by simp
  have "(2::real) powi (E + 1) < 2 powi 1024"
    using assms(4) by (simp only: pow2_less_iff)
  then have "\<not> huge \<le> \<bar>of_int ?k * ?U\<bar>" unfolding huge_def using b by linarith
  then show "round64 x = Num (of_int ?k * ?U)"
    using assms(1) by (simp add: round64_def Let_def)
qed

text \<open>How a given real rounds, from its exponent and the nearest multiple of the spacing.\<close>

lemma round64_eval:
  assumes "2 powi e \<le> \<bar>x\<bar>" "\<bar>x\<bar> < 2 powi (e + 1)" "- 1022 \<le> e" "e \<le> 1022"
    and "\<bar>x / 2 powi (e - 52) - of_int k\<bar> < 1 / 2"
  shows "round64 x = Num (of_int k * 2 powi (e - 52))"
proof -
  have nz: "x \<noteq> 0" using assms(1) by (rule pow2_le_abs_nz)
  have u: "ulp x = 2 powi (e - 52)" using assms(1,2,3) by (rule ulp_bracket)
  have "rne (x / ulp x) = k" unfolding u using assms(5) by (rule rne_unique)
  then show ?thesis
    using round64_grid(1) [OF nz u _ assms(4)] assms(2) u by simp
qed

text \<open>In the normal range the relative error is at most \<open>2 ^ - 53\<close>.\<close>

lemma round64_normal:
  assumes "2 powi (- 1022) \<le> \<bar>x\<bar>" "\<bar>x\<bar> < 2 powi 1023"
  shows "\<exists>y. round64 x = Num y \<and> \<bar>y - x\<bar> \<le> \<bar>x\<bar> / 2 ^ 53"
proof -
  have nz: "x \<noteq> 0" using assms(1) by (rule pow2_le_abs_nz)
  define e where "e = expo x"
  have lo: "2 powi e \<le> \<bar>x\<bar>" and hi: "\<bar>x\<bar> < 2 powi (e + 1)"
    unfolding e_def using nz by (rule expo_lower, rule expo_upper)
  have "(2::real) powi (- 1022) < 2 powi (e + 1)" using assms(1) hi by linarith
  then have "- 1022 < e + 1" by (simp only: pow2_less_iff)
  then have e1: "- 1022 \<le> e" by simp
  have "(2::real) powi e < 2 powi 1023" using assms(2) lo by linarith
  then have "e < 1023" by (simp only: pow2_less_iff)
  then have e2: "e \<le> 1022" by simp
  have u: "ulp x = 2 powi (e - 52)" using lo hi e1 by (rule ulp_bracket)
  let ?U = "ulp x"
  let ?k = "rne (x / ?U)"
  have U: "0 < ?U" by (rule ulp_pos)
  have r: "round64 x = Num (of_int ?k * ?U)"
    using round64_grid(1) [OF nz u _ e2] hi by simp
  have "\<bar>of_int ?k - x / ?U\<bar> \<le> 1 / 2" by (rule rne_close)
  then have "\<bar>of_int ?k - x / ?U\<bar> * ?U \<le> 1 / 2 * ?U"
    using U by (intro mult_right_mono) simp_all
  moreover have "\<bar>of_int ?k - x / ?U\<bar> * ?U = \<bar>of_int ?k * ?U - x\<bar>"
  proof -
    have "\<bar>of_int ?k - x / ?U\<bar> * ?U = \<bar>(of_int ?k - x / ?U) * ?U\<bar>"
      using U by (simp add: abs_mult)
    also have "(of_int ?k - x / ?U) * ?U = of_int ?k * ?U - x"
      using U by (simp add: field_simps)
    finally show ?thesis .
  qed
  ultimately have d: "\<bar>of_int ?k * ?U - x\<bar> \<le> ?U / 2" by simp
  have "?U / 2 = 2 powi e / 2 ^ 53"
    unfolding u by (simp add: power_int_diff)
  also have "\<dots> \<le> \<bar>x\<bar> / 2 ^ 53" using lo by (simp add: divide_right_mono)
  finally have "?U / 2 \<le> \<bar>x\<bar> / 2 ^ 53" .
  then have "\<bar>of_int ?k * ?U - x\<bar> \<le> \<bar>x\<bar> / 2 ^ 53" using d by linarith
  then show ?thesis using r by blast
qed

lemma round64_finite:
  assumes "\<bar>x\<bar> \<le> 2 powi 1022"
  shows "\<exists>y. round64 x = Num y \<and> \<bar>y\<bar> \<le> 2 powi 1023"
proof (cases "x = 0")
  case True
  then show ?thesis by (simp add: round64_def)
next
  case False
  define E where "E = max (expo x) (- 1022)"
  have lo: "2 powi expo x \<le> \<bar>x\<bar>" and hi: "\<bar>x\<bar> < 2 powi (expo x + 1)"
    using False by (rule expo_lower, rule expo_upper)
  have "(2::real) powi expo x \<le> 2 powi 1022" using lo assms by linarith
  then have "expo x \<le> 1022" by (simp only: pow2_le_iff)
  then have E: "E \<le> 1022" by (simp add: E_def)
  have u: "ulp x = 2 powi (E - 52)" by (simp add: ulp_def E_def)
  have "expo x + 1 \<le> E + 1" by (simp add: E_def)
  then have "(2::real) powi (expo x + 1) \<le> 2 powi (E + 1)"
    by (simp only: pow2_le_iff)
  then have b: "\<bar>x\<bar> \<le> 2 powi (E + 1)" using hi by linarith
  have "E + 1 \<le> 1023" using E by simp
  then have "(2::real) powi (E + 1) \<le> 2 powi 1023"
    by (simp only: pow2_le_iff)
  then show ?thesis
    using round64_grid [OF False u b E] by (metis order_trans)
qed

text \<open>
  A positive real that exceeds a binary64 number \<open>d\<close> by a relative \<open>2 ^ - 53\<close> at most
  rounds to \<open>d\<close> or to its successor, never further up.
\<close>

lemma round64_upper:
  assumes "isDouble d" "2 powi (- 1022) \<le> d" "d < 2 powi 1022" "0 < p"
    and "p \<le> d * (1 + 1 / 2 ^ 53)"
  shows "\<exists>y. round64 p = Num y \<and> y \<le> d * (1 + 1 / 2 ^ 52)"
proof -
  have dpos: "0 < d" using assms(2) pow2_pos [of "- 1022"] by linarith
  then have dnz: "d \<noteq> 0" by simp
  define e where "e = expo d"
  have lo: "2 powi e \<le> d" and hi: "d < 2 powi (e + 1)"
    using expo_lower [OF dnz] expo_upper [OF dnz] dpos by (simp_all add: e_def)
  have "(2::real) powi (- 1022) < 2 powi (e + 1)" using assms(2) hi by linarith
  then have "- 1022 < e + 1" by (simp only: pow2_less_iff)
  then have e1: "- 1022 \<le> e" by simp
  have "(2::real) powi e < 2 powi 1022" using assms(3) lo by linarith
  then have "e < 1022" by (simp only: pow2_less_iff)
  then have e2: "e \<le> 1022" by simp
  define U where "U = (2::real) powi (e - 52)"
  have U: "0 < U" by (simp add: U_def)
  have ud: "ulp d = U" unfolding U_def using lo hi e1 dpos by (intro ulp_bracket) simp_all
  define m where "m = rne (d / U)"
  have "round64 d = Num (of_int m * U)"
    using round64_grid(1) [OF dnz _ _ e2, of ] ud hi dpos by (simp add: m_def U_def)
  then have dm: "d = of_int m * U" using assms(1) by (simp add: isDouble_def)
  have top: "2 powi (e + 1) = 2 ^ 53 * U"
    by (simp add: U_def power_int_diff power_int_add)
  have "of_int m * U < 2 ^ 53 * U" using hi dm top by simp
  then have "real_of_int m < 2 ^ 53" using U by simp
  then have "m < 2 ^ 53" by (metis of_int_less_iff of_int_numeral of_int_power)
  then have "m + 1 \<le> 2 ^ 53" by simp
  then have "real_of_int (m + 1) \<le> 2 ^ 53"
    by (metis of_int_le_iff of_int_numeral of_int_power)
  then have "real_of_int (m + 1) * U \<le> 2 ^ 53 * U" using U by (intro mult_right_mono) simp_all
  then have next_le: "d + U \<le> 2 powi (e + 1)" using dm top by (simp add: algebra_simps)
  have "d / 2 ^ 53 < 2 powi (e + 1) / 2 ^ 53" using hi by (simp add: divide_strict_right_mono)
  also have "\<dots> = U" by (simp add: U_def power_int_diff power_int_add)
  finally have "d / 2 ^ 53 < U" .
  then have plt: "p < d + U" using assms(5) by (simp add: algebra_simps)
  have "U = 2 powi e / 2 ^ 52" by (simp add: U_def power_int_diff)
  also have "\<dots> \<le> d / 2 ^ 52" using lo by (simp add: divide_right_mono)
  finally have "U \<le> d / 2 ^ 52" .
  then have bound: "d + U \<le> d * (1 + 1 / 2 ^ 52)" by (simp add: algebra_simps)
  have pnz: "p \<noteq> 0" using assms(4) by simp
  have plo: "2 powi expo p \<le> p" and phi: "p < 2 powi (expo p + 1)"
    using expo_lower [OF pnz] expo_upper [OF pnz] assms(4) by simp_all
  define E where "E = max (expo p) (- 1022)"
  have "(2::real) powi expo p < 2 powi (e + 1)" using plo plt next_le by linarith
  then have "expo p < e + 1" by (simp only: pow2_less_iff)
  then have Ee: "E \<le> e" using e1 by (simp add: E_def)
  have up: "ulp p = 2 powi (E - 52)" by (simp add: ulp_def E_def)
  have "expo p + 1 \<le> E + 1" by (simp add: E_def)
  then have "(2::real) powi (expo p + 1) \<le> 2 powi (E + 1)" by (simp only: pow2_le_iff)
  then have pE: "\<bar>p\<bar> \<le> 2 powi (E + 1)" using phi assms(4) by simp
  have E2: "E \<le> 1022" using Ee e2 by simp
  note g = round64_grid [OF pnz up pE E2]
  show ?thesis
  proof (cases "E = e")
    case True
    then have upU: "ulp p = U" using up by (simp add: U_def)
    have "p / U \<le> real_of_int (m + 1)"
      using plt dm U by (simp add: field_simps)
    then have "rne (p / U) \<le> m + 1" by (rule rne_le)
    then have "real_of_int (rne (p / U)) \<le> real_of_int (m + 1)" by (simp only: of_int_le_iff)
    then have "real_of_int (rne (p / U)) * U \<le> real_of_int (m + 1) * U"
      using U by (intro mult_right_mono) simp_all
    also have "\<dots> = d + U" using dm by (simp add: algebra_simps)
    finally have "real_of_int (rne (p / U)) * U \<le> d * (1 + 1 / 2 ^ 52)" using bound by linarith
    then show ?thesis using g(1) upU by simp
  next
    case False
    then have "E + 1 \<le> e" using Ee by simp
    then have "(2::real) powi (E + 1) \<le> 2 powi e" by (simp only: pow2_le_iff)
    then have "\<bar>of_int (rne (p / ulp p)) * ulp p\<bar> \<le> d" using g(2) lo by linarith
    then have "of_int (rne (p / ulp p)) * ulp p \<le> d * (1 + 1 / 2 ^ 52)"
      using bound U by linarith
    then show ?thesis using g(1) by simp
  qed
qed

lemma isDouble_half:
  assumes "isDouble d" "2 powi (- 1021) \<le> \<bar>d\<bar>"
  shows "isDouble (d / 2)"
proof -
  have dnz: "d \<noteq> 0" using assms(2) by (rule pow2_le_abs_nz)
  define e where "e = expo d"
  have lo: "2 powi e \<le> \<bar>d\<bar>" and hi: "\<bar>d\<bar> < 2 powi (e + 1)"
    unfolding e_def using dnz by (rule expo_lower, rule expo_upper)
  have "(2::real) powi (- 1021) < 2 powi (e + 1)" using assms(2) hi by linarith
  then have "- 1021 < e + 1" by (simp only: pow2_less_iff)
  then have e1: "- 1022 \<le> e - 1" by simp
  have ud: "ulp d = 2 powi (e - 52)" using lo hi e1 by (intro ulp_bracket) simp_all
  have half: "(2::real) powi (e - 1) = 2 powi e / 2" by (simp add: power_int_diff)
  have lo2: "2 powi (e - 1) \<le> \<bar>d / 2\<bar>" using lo half by simp
  have hi2: "\<bar>d / 2\<bar> < 2 powi (e - 1 + 1)" using hi by (simp add: power_int_add) 
  have uh: "ulp (d / 2) = 2 powi (e - 1 - 52)" using lo2 hi2 e1 by (rule ulp_bracket)
  have uu: "ulp (d / 2) = ulp d / 2" unfolding uh ud by (simp add: power_int_diff)
  have q: "d / 2 / (ulp d / 2) = d / ulp d" by simp
  have r: "round64 d = Num d" using assms(1) by (simp add: isDouble_def)
  note y = round64_NumD [OF r dnz]
  have "of_int (rne (d / ulp d)) * (ulp d / 2) = d / 2" using y(1) by simp
  then have a: "of_int (rne (d / 2 / ulp (d / 2))) * ulp (d / 2) = d / 2"
    unfolding uu q .
  have "\<bar>d / 2\<bar> \<le> \<bar>d\<bar>" by simp
  then have b: "\<not> huge \<le> \<bar>d / 2\<bar>" using y(2) by linarith
  have "d / 2 \<noteq> 0" using dnz by simp
  then have "round64 (d / 2) = Num (d / 2)" using a b by (rule round64_NumI)
  then show ?thesis by (simp add: isDouble_def)
qed

lemma round64_0: "round64 0 = Num 0"
  by (simp add: round64_def)

lemma div64_Num: "b \<noteq> 0 \<Longrightarrow> div64 (Num a) (Num b) = round64 (a / b)"
  by (simp add: div64_def)

lemma mul64_Num: "mul64 (Num a) (Num b) = round64 (a * b)"
  by (simp add: mul64_def)

lemma sub64_Num: "sub64 (Num a) (Num b) = round64 (a - b)"
  by (simp add: sub64_def jsub_def)

lemma rel_err_bounds:
  assumes "0 < (x::real)" "\<bar>q - x\<bar> \<le> \<bar>x\<bar> / 2 ^ 53"
  shows "q \<le> x * (1 + 1 / 2 ^ 53)" "x / 2 \<le> q" "q \<le> 2 * x" "0 < q"
proof -
  define t where "t = x / 2 ^ 53"
  have "\<bar>x\<bar> = x" using assms(1) by (rule abs_of_pos)
  then have "\<bar>q - x\<bar> \<le> t" using assms(2) by (simp only: t_def)
  then have a: "q \<le> x + t" and b: "x - t \<le> q" by linarith+
  have t1: "0 < t" using assms(1) by (simp add: t_def)
  have "t * 2 ^ 53 = x" by (simp add: t_def)
  moreover have "t * 2 \<le> t * 2 ^ 53" using t1 by (intro mult_left_mono) simp_all
  ultimately have t2: "t * 2 \<le> x" by simp
  show "q \<le> x * (1 + 1 / 2 ^ 53)" using a by (simp add: t_def algebra_simps)
  show "x / 2 \<le> q" using b t2 by linarith
  show "q \<le> 2 * x" using a t2 t1 by linarith
  show "0 < q" using b t2 t1 by linarith
qed

lemma in_range_pos: "2 powi (- 300) \<le> (a::real) \<Longrightarrow> 0 < a"
  using pow2_pos [of "- 300"] by linarith

lemma pow2_300_le_1022: "(2::real) powi 300 \<le> 2 powi 1022" "(2::real) powi (- 1022) \<le> 2 powi (- 300)"
  by (simp_all only: pow2_le_iff)

subsection \<open>The steps of fitContain on sizes between \<open>2 ^ - 300\<close> and \<open>2 ^ 300\<close>\<close>

text \<open>The quotient of two sizes, rounded.\<close>

lemma ratio_rounded:
  assumes "2 powi (- 300) \<le> a" "a \<le> 2 powi 300" "2 powi (- 300) \<le> b" "b \<le> 2 powi 300"
  shows "\<exists>q. round64 (a / b) = Num q \<and> q \<le> a / b * (1 + 1 / 2 ^ 53)
       \<and> 2 powi (- 601) \<le> q \<and> q \<le> 2 powi 601"
proof -
  have apos: "0 < a" and bpos: "0 < b"
    using assms(1,3) pow2_pos [of "- 300"] by linarith+
  have lo: "2 powi (- 600) \<le> a / b"
  proof -
    have "(2::real) powi (- 600) = 2 powi (- 300) / 2 powi 300"
      by (simp add: power_int_diff [symmetric])
    also have "\<dots> \<le> a / b"
      using assms bpos by (intro frac_le) simp_all
    finally show ?thesis .
  qed
  have hi: "a / b \<le> 2 powi 600"
  proof -
    have "a / b \<le> 2 powi 300 / 2 powi (- 300)"
      using assms apos by (intro frac_le) simp_all
    also have "\<dots> = (2::real) powi 600"
      by (simp add: power_int_diff [symmetric])
    finally show ?thesis .
  qed
  have xpos: "0 < a / b" using apos bpos by simp
  then have ax: "\<bar>a / b\<bar> = a / b" by (rule abs_of_pos)
  have "(2::real) powi (- 1022) \<le> 2 powi (- 600)" by (simp only: pow2_le_iff)
  then have "2 powi (- 1022) \<le> a / b" using lo by (rule order_trans)
  then have n1: "2 powi (- 1022) \<le> \<bar>a / b\<bar>" by (simp only: ax)
  have "(2::real) powi 600 < 2 powi 1023" by (simp only: pow2_less_iff)
  then have "a / b < 2 powi 1023" using hi by (rule le_less_trans [rotated])
  then have n2: "\<bar>a / b\<bar> < 2 powi 1023" by (simp only: ax)
  obtain q where q: "round64 (a / b) = Num q" and err: "\<bar>q - a / b\<bar> \<le> \<bar>a / b\<bar> / 2 ^ 53"
    using round64_normal [OF n1 n2] by blast
  note b = rel_err_bounds [OF xpos err]
  have "(2::real) powi (- 601) = 2 powi (- 600) / 2"
    using power_int_diff [of "2::real" "- 600" 1] by simp
  also have "\<dots> \<le> a / b / 2" using lo by (intro divide_right_mono) simp_all
  also have "\<dots> \<le> q" by (rule b(2))
  finally have l: "2 powi (- 601) \<le> q" .
  have "q \<le> 2 * (a / b)" by (rule b(3))
  also have "\<dots> \<le> 2 * 2 powi 600" using hi by (intro mult_left_mono) simp_all
  also have "\<dots> = (2::real) powi 601"
    using power_int_add [of "2::real" 1 600] by simp
  finally have u: "q \<le> 2 powi 601" .
  show ?thesis using q b(1) l u by blast
qed

text \<open>A source size times a ratio that is at most the rounded quotient of its own axis.\<close>

lemma scaled_rounded:
  assumes "isDouble d" "2 powi (- 300) \<le> d" "d \<le> 2 powi 300"
    and "2 powi (- 300) \<le> a" "a \<le> 2 powi 300"
    and "r \<le> q" "q \<le> d / a * (1 + 1 / 2 ^ 53)" "2 powi (- 601) \<le> r"
  shows "\<exists>w. round64 (a * r) = Num w \<and> 0 < w \<and> w \<le> d * (1 + 1 / 2 ^ 52)"
proof -
  have apos: "0 < a" and dpos: "0 < d"
    using assms(2,4) pow2_pos [of "- 300"] by linarith+
  have rpos: "0 < r" using assms(8) pow2_pos [of "- 601"] by linarith
  have ppos: "0 < a * r" using apos rpos by simp
  have "a * r \<le> a * q" using assms(6) apos by simp
  also have "\<dots> \<le> a * (d / a * (1 + 1 / 2 ^ 53))"
    using assms(7) apos by (intro mult_left_mono) simp_all
  also have "\<dots> = d * (1 + 1 / 2 ^ 53)" using apos by simp
  finally have ple: "a * r \<le> d * (1 + 1 / 2 ^ 53)" .
  have dlo: "2 powi (- 1022) \<le> d" using assms(2) pow2_300_le_1022(2) by linarith
  have "(2::real) powi 300 < 2 powi 1022" by (simp only: pow2_less_iff)
  then have dhi: "d < 2 powi 1022" using assms(3) by linarith
  obtain w where w: "round64 (a * r) = Num w" and wle: "w \<le> d * (1 + 1 / 2 ^ 52)"
    using round64_upper [OF assms(1) dlo dhi ppos ple] by blast
  have "(2::real) powi (- 901) = 2 powi (- 300) * 2 powi (- 601)"
    by (simp add: power_int_add [symmetric])
  also have "\<dots> \<le> a * r"
    using assms(4,8) by (intro mult_mono) simp_all
  finally have "2 powi (- 901) \<le> a * r" .
  moreover have "(2::real) powi (- 1022) \<le> 2 powi (- 901)" by (simp only: pow2_le_iff)
  ultimately have n1: "2 powi (- 1022) \<le> \<bar>a * r\<bar>" using ppos by linarith
  have "d * (1 + 1 / 2 ^ 53) \<le> d * 2" using dpos by (intro mult_left_mono) simp_all
  moreover have "(2::real) powi 301 = 2 powi 300 * 2"
    using power_int_add [of "2::real" 300 1] by simp
  ultimately have "a * r \<le> 2 powi 301" using ple assms(3) by linarith
  moreover have "(2::real) powi 301 < 2 powi 1023" by (simp only: pow2_less_iff)
  ultimately have n2: "\<bar>a * r\<bar> < 2 powi 1023" using ppos by linarith
  obtain w' where w': "round64 (a * r) = Num w'" and err: "\<bar>w' - a * r\<bar> \<le> \<bar>a * r\<bar> / 2 ^ 53"
    using round64_normal [OF n1 n2] by blast
  have "w' = w" using w w' by simp
  moreover have "\<bar>a * r\<bar> = a * r" using ppos by (rule abs_of_pos)
  ultimately have "\<bar>w - a * r\<bar> \<le> a * r / 2 ^ 53" using err by (simp only:)
  then have "a * r - a * r / 2 ^ 53 \<le> w" by linarith
  moreover have "a * r / 2 ^ 53 < a * r" using ppos by (simp add: field_simps)
  ultimately have "0 < w" by linarith
  then show ?thesis using w wle by blast
qed

text \<open>An offset: a difference of two sizes, rounded, then halved.\<close>

lemma offset_finite:
  assumes "\<bar>a\<bar> \<le> 2 powi 301" "\<bar>b\<bar> \<le> 2 powi 301"
  shows "isFinite (div64 (sub64 (Num a) (Num b)) (Num 2))"
proof -
  have "(2::real) powi 302 = 2 powi 301 + 2 powi 301"
    using power_int_add [of "2::real" 301 1] by simp
  then have "\<bar>a - b\<bar> \<le> 2 powi 302" using assms by linarith
  moreover have "(2::real) powi 302 \<le> 2 powi 1022" by (simp only: pow2_le_iff)
  ultimately have "\<bar>a - b\<bar> \<le> 2 powi 1022" by linarith
  then obtain v where v: "round64 (a - b) = Num v" and vb: "\<bar>v\<bar> \<le> 2 powi 1023"
    using round64_finite by blast
  have "(2::real) powi 1023 = 2 powi 1022 * 2"
    using power_int_add [of "2::real" 1022 1] by simp
  then have "\<bar>v / 2\<bar> \<le> 2 powi 1022" using vb by simp
  then obtain u where u: "round64 (v / 2) = Num u"
    using round64_finite by blast
  show ?thesis by (simp add: sub64_Num v div64_Num u)
qed

lemma size_le_301:
  assumes "0 < (w::real)" "w \<le> d * (1 + 1 / 2 ^ 52)" "0 < d" "d \<le> 2 powi 300"
  shows "\<bar>w\<bar> \<le> 2 powi 301"
proof -
  have "d * (1 + 1 / 2 ^ 52) \<le> d * 2" using assms(3) by (intro mult_left_mono) simp_all
  also have "\<dots> \<le> 2 powi 300 * 2" using assms(4) by (intro mult_right_mono) simp_all
  also have "\<dots> = (2::real) powi 301" using power_int_add [of "2::real" 300 1] by simp
  finally have "d * (1 + 1 / 2 ^ 52) \<le> 2 powi 301" .
  then have "w \<le> 2 powi 301" using assms(2) by (rule order_trans [rotated])
  moreover have "\<bar>w\<bar> = w" using assms(1) by (rule abs_of_pos)
  ultimately show ?thesis by (simp only:)
qed

lemma size_le_301':
  assumes "0 < (d::real)" "d \<le> 2 powi 300"
  shows "\<bar>d\<bar> \<le> 2 powi 301"
proof -
  have "(2::real) powi 300 \<le> 2 powi 301" by (simp only: pow2_le_iff)
  then have "d \<le> 2 powi 301" using assms(2) by (rule order_trans [rotated])
  moreover have "\<bar>d\<bar> = d" using assms(1) by (rule abs_of_pos)
  ultimately show ?thesis by (simp only:)
qed

lemma half_of_double:
  assumes "isDouble d" "2 powi (- 300) \<le> d"
  shows "div64 (sub64 (Num d) (Num 0)) (Num 2) = Num (d / 2)"
proof -
  have dpos: "0 < d" using assms(2) by (rule in_range_pos)
  have "(2::real) powi (- 1021) \<le> 2 powi (- 300)" by (simp only: pow2_le_iff)
  then have "2 powi (- 1021) \<le> d" using assms(2) by (rule order_trans)
  moreover have "\<bar>d\<bar> = d" using dpos by (rule abs_of_pos)
  ultimately have "2 powi (- 1021) \<le> \<bar>d\<bar>" by (simp only:)
  then have "isDouble (d / 2)" using assms(1) by (intro isDouble_half)
  then show ?thesis
    using assms(1) by (simp add: sub64_Num div64_Num isDouble_def)
qed

text \<open>One axis of \<open>fitContain\<close> when the ratio is the rounded quotient of that axis.\<close>

lemma axis_rounded:
  assumes "isDouble d" "2 powi (- 300) \<le> d" "d \<le> 2 powi 300"
    and "2 powi (- 300) \<le> a" "a \<le> 2 powi 300"
  shows "\<exists>q v. div64 (Num d) (Num a) = Num q \<and> mul64 (Num a) (Num q) = Num v
     \<and> 0 < v \<and> v \<le> d * (1 + 1 / 2 ^ 52)
     \<and> isFinite (div64 (sub64 (Num d) (Num v)) (Num 2))"
proof -
  have apos: "0 < a" and dpos: "0 < d" using assms(2,4) by (simp_all add: in_range_pos)
  obtain q where q: "round64 (d / a) = Num q"
    and qu: "q \<le> d / a * (1 + 1 / 2 ^ 53)" and ql: "2 powi (- 601) \<le> q"
    using ratio_rounded [OF assms(2,3,4,5)] by blast
  obtain v where v: "round64 (a * q) = Num v" and vp: "0 < v"
    and vu: "v \<le> d * (1 + 1 / 2 ^ 52)"
    using scaled_rounded [OF assms(1,2,3,4,5) order_refl qu ql] by blast
  have "isFinite (div64 (sub64 (Num d) (Num v)) (Num 2))"
    using size_le_301' [OF dpos assms(3)] size_le_301 [OF vp vu dpos assms(3)]
    by (rule offset_finite)
  then show ?thesis
    using apos q v vp vu by (auto simp add: div64_Num mul64_Num)
qed

subsection \<open>Some roundings worked out\<close>

lemma range_small: "1 \<le> a \<Longrightarrow> a \<le> 1024 \<Longrightarrow> 2 powi (- 300) \<le> (a::real) \<and> a \<le> 2 powi 300"
proof -
  assume a: "1 \<le> a" "a \<le> 1024"
  have "(2::real) powi (- 300) \<le> 2 powi 0" by (simp only: pow2_le_iff)
  then have l: "2 powi (- 300) \<le> a" using a(1) by simp
  have "(2::real) powi 10 \<le> 2 powi 300" by (simp only: pow2_le_iff)
  then have "a \<le> 2 powi 300" using a(2) by simp
  then show ?thesis using l by simp
qed

lemma double_1: "round64 1 = Num 1"
  using round64_eval [of 0 1 4503599627370496] by simp

lemma double_half: "round64 (1 / 2) = Num (1 / 2)"
  using round64_eval [of "- 1" "1 / 2" 4503599627370496] by simp

lemma double_50: "round64 50 = Num 50"
  using round64_eval [of 5 50 7036874417766400] by simp

lemma double_100: "round64 100 = Num 100"
  using round64_eval [of 6 100 7036874417766400] by simp

lemma double_200: "round64 200 = Num 200"
  using round64_eval [of 7 200 7036874417766400] by simp

lemma double_580: "round64 580 = Num 580"
  using round64_eval [of 9 580 5101733952880640] by simp

lemma double_624: "round64 624 = Num 624"
  using round64_eval [of 9 624 5488762045857792] by simp

lemma round64_624_div_289: "round64 (624 / 289) = Num (4862017590794446 / 2 ^ 51)"
  using round64_eval [of 1 "624 / 289" 4862017590794446] by simp

lemma round64_29_div_10: "round64 (29 / 10) = Num (6530219459687219 / 2 ^ 51)"
  using round64_eval [of 1 "29 / 10" 6530219459687219] by simp

lemma round64_width_289: "round64 (289 * (4862017590794446 / 2 ^ 51)) = Num (624 + 1 / 2 ^ 43)"
  using round64_eval [of 9 "289 * (4862017590794446 / 2 ^ 51)" 5488762045857793] by simp

lemma round64_minus_2_43: "round64 (- (1 / 2 ^ 43)) = Num (- (1 / 2 ^ 43))"
  using round64_eval [of "- 43" "- (1 / 2 ^ 43)" "- 4503599627370496"] by simp

lemma round64_minus_2_44: "round64 (- (1 / 2 ^ 44)) = Num (- (1 / 2 ^ 44))"
  using round64_eval [of "- 44" "- (1 / 2 ^ 44)" "- 4503599627370496"] by simp

lemma round64_116_div_27: "round64 (116 / 27) = Num (4837199599768311 / 2 ^ 50)"
  using round64_eval [of 2 "116 / 27" 4837199599768311] by simp

lemma round64_height_135: "round64 (135 * (4837199599768311 / 2 ^ 50)) = Num (580 + 1 / 2 ^ 43)"
  using round64_eval [of 9 "135 * (4837199599768311 / 2 ^ 50)" 5101733952880641] by simp

section \<open>Claims\<close>

subsection \<open>C1: the length of the technique array\<close>

text \<open>
  C1, as stated: in every reachable state the technique array has \<open>classCount * 6\<close>
  entries. The initial state already has one class and 24 entries.
\<close>

theorem techniques_length_not_classCount_times_6:
  "run init [] = Some init \<and> classCount init = 1 \<and> length (techniques init) = 24
   \<and> length (techniques init) \<noteq> classCount init * 6"
  by (simp add: init_def)

text \<open>
  C1, amended: in every state a run of the page reaches, the technique array has 24
  entries (room for four classes) and \<open>classCount\<close> lies between 1 and 4, so
  \<open>classCount * 6\<close> never exceeds the length of the array and equals it exactly when
  \<open>classCount\<close> is 4.
\<close>

theorem techniques_length_reachable:
  assumes "run init es = Some s"
  shows "length (techniques s) = 24 \<and> 1 \<le> classCount s \<and> classCount s \<le> 4
     \<and> classCount s * 6 \<le> length (techniques s)
     \<and> (length (techniques s) = classCount s * 6) = (classCount s = 4)"
  using wellFormed_run [OF wellFormed_init assms] by (auto simp add: wellFormed_def)

theorem techniques_length_reachable_witness:
  "run init [SetClassCount 4, TechniqueInput 3 5 [0x41]]
     = Some (handleTechniqueChange 23 [0x41] (init\<lparr> classCount := 4 \<rparr>))
   \<and> length (techniques (handleTechniqueChange 23 [0x41] (init\<lparr> classCount := 4 \<rparr>))) = 24
   \<and> classCount (handleTechniqueChange 23 [0x41] (init\<lparr> classCount := 4 \<rparr>)) * 6
       = length (techniques (handleTechniqueChange 23 [0x41] (init\<lparr> classCount := 4 \<rparr>)))"
proof -
  have r: "run init [SetClassCount 4, TechniqueInput 3 5 [0x41]]
     = Some (handleTechniqueChange 23 [0x41] (init\<lparr> classCount := 4 \<rparr>))"
    by simp
  have c: "classCount (handleTechniqueChange 23 [0x41] (init\<lparr> classCount := 4 \<rparr>)) = 4"
    by (simp add: handleTechniqueChange_def)
  show ?thesis
    using r c techniques_length_reachable [OF r] by simp
qed

subsection \<open>C2: fitContain on positive sizes\<close>

text \<open>
  C2, as stated: for strictly positive sizes \<open>fitContain\<close> returns the source size scaled
  by \<open>min (dstW / srcW) (dstH / srcH)\<close> and the offsets \<open>(dstW - width) / 2\<close> and
  \<open>(dstH - height) / 2\<close>, and the scaled box never exceeds the destination box on either
  axis. The results are binary64 numbers and each operation rounds. For a
  289 by 200 image in the 624 by 580 panel of the card, the ratio is 624 / 289 rounded up,
  the width is \<open>624 + 2 ^ - 43\<close> (624.0000000000001), which is more than 624, and the x
  offset is \<open>- (2 ^ - 44)\<close>, which is negative.
\<close>

theorem fitContain_exceeds_destination:
  "fit_w (fitContain (Num 289) (Num 200) (Num 624) (Num 580)) = Num (624 + 1 / 2 ^ 43)
   \<and> jgt (fit_w (fitContain (Num 289) (Num 200) (Num 624) (Num 580))) (Num 624)
   \<and> fit_x (fitContain (Num 289) (Num 200) (Num 624) (Num 580)) = Num (- (1 / 2 ^ 44))
   \<and> jgt (Num 0) (fit_x (fitContain (Num 289) (Num 200) (Num 624) (Num 580)))"
proof -
  have a: "div64 (Num 624) (Num 289) = Num (4862017590794446 / 2 ^ 51)"
    by (simp add: div64_def round64_624_div_289)
  have b: "div64 (Num 580) (Num 200) = Num (6530219459687219 / 2 ^ 51)"
    by (simp add: div64_def round64_29_div_10)
  have m: "Math_min (Num (4862017590794446 / 2 ^ 51)) (Num (6530219459687219 / 2 ^ 51))
      = Num (4862017590794446 / 2 ^ 51)"
    by simp
  have w: "mul64 (Num 289) (Num (4862017590794446 / 2 ^ 51)) = Num (624 + 1 / 2 ^ 43)"
    using round64_width_289 by (simp add: mul64_def)
  have d: "sub64 (Num 624) (Num (624 + 1 / 2 ^ 43)) = Num (- (1 / 2 ^ 43))"
    using round64_minus_2_43 by (simp add: sub64_def jsub_def)
  have x: "div64 (Num (- (1 / 2 ^ 43))) (Num 2) = Num (- (1 / 2 ^ 44))"
    using round64_minus_2_44 by (simp add: div64_def)
  have fw: "fit_w (fitContain (Num 289) (Num 200) (Num 624) (Num 580)) = Num (624 + 1 / 2 ^ 43)"
    unfolding fitContain_def Let_def a b m w by simp
  have fx: "fit_x (fitContain (Num 289) (Num 200) (Num 624) (Num 580)) = Num (- (1 / 2 ^ 44))"
    unfolding fitContain_def Let_def a b m w d x by simp
  show ?thesis unfolding fw fx by simp
qed

text \<open>
  C2, amended: for sizes between \<open>2 ^ - 300\<close> and \<open>2 ^ 300\<close> with a binary64 destination,
  \<open>fitContain\<close> returns four finite numbers. With \<open>qw\<close> and \<open>qh\<close> the quotients
  \<open>dstW / srcW\<close> and \<open>dstH / srcH\<close>, rounded, the width is \<open>srcW * min qw qh\<close>, rounded, the
  height is \<open>srcH * min qw qh\<close>, rounded, and the offsets are \<open>(dstW - width) / 2\<close> and
  \<open>(dstH - height) / 2\<close>, each operation rounded. Width and height are positive and exceed
  the destination by one unit in the last place at most: \<open>width \<le> dstW * (1 + 2 ^ - 52)\<close>
  and \<open>height \<le> dstH * (1 + 2 ^ - 52)\<close>. In particular \<open>fitContain 400 200 200 200\<close> is
  width 200, height 100, offsets 0 and 50.
\<close>

theorem fitContain_rounded:
  assumes "isDouble dstW" "isDouble dstH"
    and "2 powi (- 300) \<le> srcW" "srcW \<le> 2 powi 300"
    and "2 powi (- 300) \<le> srcH" "srcH \<le> 2 powi 300"
    and "2 powi (- 300) \<le> dstW" "dstW \<le> 2 powi 300"
    and "2 powi (- 300) \<le> dstH" "dstH \<le> 2 powi 300"
  shows "\<exists>qw qh w h.
      round64 (dstW / srcW) = Num qw \<and> round64 (dstH / srcH) = Num qh
    \<and> round64 (srcW * min qw qh) = Num w \<and> round64 (srcH * min qw qh) = Num h
    \<and> fitContain (Num srcW) (Num srcH) (Num dstW) (Num dstH)
        = \<lparr> fit_w = Num w, fit_h = Num h,
            fit_x = div64 (sub64 (Num dstW) (Num w)) (Num 2),
            fit_y = div64 (sub64 (Num dstH) (Num h)) (Num 2) \<rparr>
    \<and> fitFinite (fitContain (Num srcW) (Num srcH) (Num dstW) (Num dstH))
    \<and> 0 < w \<and> w \<le> dstW * (1 + 1 / 2 ^ 52)
    \<and> 0 < h \<and> h \<le> dstH * (1 + 1 / 2 ^ 52)"
proof -
  have sw: "0 < srcW" and sh: "0 < srcH" and dw: "0 < dstW" and dh: "0 < dstH"
    using assms(3,5,7,9) by (simp_all add: in_range_pos)
  obtain qw where qw: "round64 (dstW / srcW) = Num qw"
    and qwu: "qw \<le> dstW / srcW * (1 + 1 / 2 ^ 53)" and qwl: "2 powi (- 601) \<le> qw"
    using ratio_rounded [OF assms(7,8,3,4)] by blast
  obtain qh where qh: "round64 (dstH / srcH) = Num qh"
    and qhu: "qh \<le> dstH / srcH * (1 + 1 / 2 ^ 53)" and qhl: "2 powi (- 601) \<le> qh"
    using ratio_rounded [OF assms(9,10,5,6)] by blast
  define r where "r = min qw qh"
  have r1: "r \<le> qw" and r2: "r \<le> qh" and r3: "2 powi (- 601) \<le> r"
    using qwl qhl by (simp_all add: r_def)
  obtain w where w: "round64 (srcW * r) = Num w" and wp: "0 < w"
    and wu: "w \<le> dstW * (1 + 1 / 2 ^ 52)"
    using scaled_rounded [OF assms(1) assms(7,8) assms(3,4) r1 qwu r3] by blast
  obtain h where h: "round64 (srcH * r) = Num h" and hp: "0 < h"
    and hu: "h \<le> dstH * (1 + 1 / 2 ^ 52)"
    using scaled_rounded [OF assms(2) assms(9,10) assms(5,6) r2 qhu r3] by blast
  have eq: "fitContain (Num srcW) (Num srcH) (Num dstW) (Num dstH)
        = \<lparr> fit_w = Num w, fit_h = Num h,
            fit_x = div64 (sub64 (Num dstW) (Num w)) (Num 2),
            fit_y = div64 (sub64 (Num dstH) (Num h)) (Num 2) \<rparr>"
    using sw sh by (simp add: fitContain_def Let_def div64_Num qw qh mul64_Num w h r_def [symmetric])
  have fx: "isFinite (div64 (sub64 (Num dstW) (Num w)) (Num 2))"
    using size_le_301' [OF dw assms(8)] size_le_301 [OF wp wu dw assms(8)] by (rule offset_finite)
  have fy: "isFinite (div64 (sub64 (Num dstH) (Num h)) (Num 2))"
    using size_le_301' [OF dh assms(10)] size_le_301 [OF hp hu dh assms(10)] by (rule offset_finite)
  have fin: "fitFinite (fitContain (Num srcW) (Num srcH) (Num dstW) (Num dstH))"
    unfolding eq using fx fy by (simp add: fitFinite_def)
  show ?thesis
    using qw qh w h eq fin wp wu hp hu unfolding r_def by blast
qed

theorem fitContain_rounded_witness:
  "isDouble 200 \<and> fitContain (Num 400) (Num 200) (Num 200) (Num 200)
     = \<lparr> fit_w = Num 200, fit_h = Num 100, fit_x = Num 0, fit_y = Num 50 \<rparr>"
proof -
  have d: "isDouble 200" by (simp add: isDouble_def double_200)
  have r4: "2 powi (- 300) \<le> (400::real) \<and> (400::real) \<le> 2 powi 300"
    by (rule range_small) simp_all
  have r2: "2 powi (- 300) \<le> (200::real) \<and> (200::real) \<le> 2 powi 300"
    by (rule range_small) simp_all
  obtain qw qh w h where
    qw: "round64 (200 / 400) = Num qw" and qh: "round64 (200 / 200) = Num qh"
    and w: "round64 (400 * min qw qh) = Num w" and h: "round64 (200 * min qw qh) = Num h"
    and eq: "fitContain (Num 400) (Num 200) (Num 200) (Num 200)
        = \<lparr> fit_w = Num w, fit_h = Num h,
            fit_x = div64 (sub64 (Num 200) (Num w)) (Num 2),
            fit_y = div64 (sub64 (Num 200) (Num h)) (Num 2) \<rparr>"
    using fitContain_rounded [of 200 200 400 200] d r4 r2 by blast
  have "qw = 1 / 2" using qw by (simp add: double_half)
  moreover have "qh = 1" using qh by (simp add: double_1)
  ultimately have m: "min qw qh = 1 / 2" by simp
  have w': "w = 200" using w unfolding m by (simp add: double_200)
  have h': "h = 100" using h unfolding m by (simp add: double_100)
  have x: "div64 (sub64 (Num 200) (Num 200)) (Num 2) = Num 0"
    by (simp add: sub64_Num div64_Num round64_0)
  have y: "div64 (sub64 (Num 200) (Num 100)) (Num 2) = Num 50"
    by (simp add: sub64_Num div64_Num double_100 double_50)
  show ?thesis using d eq unfolding w' h' x y by simp
qed

subsection \<open>C3: the reset button\<close>

text \<open>
  C3, as stated: reset puts every input back to its default, the class count back to a
  single class among them. The handler has no setter for the class count: after the
  slider was moved to 3, a reset leaves it at 3.
\<close>

theorem reset_keeps_classCount:
  "run init [SetClassCount 3, Reset] = Some (reset (init\<lparr> classCount := 3 \<rparr>))
   \<and> classCount (reset (init\<lparr> classCount := 3 \<rparr>)) = 3
   \<and> classCount (reset (init\<lparr> classCount := 3 \<rparr>)) \<noteq> 1"
  by (simp add: reset_def)

text \<open>
  C3, amended: reset sets the five free-text fields to the empty string, the preset race
  to the first entry of \<open>DEFAULT_RACES\<close>, the custom race to the empty string, the
  technique array to 24 empty strings and the illustration to the placeholder (upload
  dropped); it leaves the class count and the frame style as they are.
\<close>

theorem reset_fields:
  "title (reset s) = [] \<and> username (reset s) = [] \<and> monsterName (reset s) = []
   \<and> exName (reset s) = [] \<and> battleMeme (reset s) = []
   \<and> racePreset (reset s) = [0x9B54, 0x65CF] \<and> racePreset (reset s) = racePreset init
   \<and> raceCustom (reset s) = []
   \<and> techniques (reset s) = replicate 24 (Some [])
   \<and> useDefaultIllust (reset s) \<and> uploadURL (reset s) = None
   \<and> illustSrc (reset s) = checker s
   \<and> classCount (reset s) = classCount s \<and> frame (reset s) = frame s
   \<and> checker (reset s) = checker s"
  by (simp add: reset_def init_def DEFAULT_RACES_def illustSrc_def)

theorem reset_fields_witness:
  "title (reset init) = [] \<and> techniques (reset init) = replicate 24 (Some [])
   \<and> classCount (reset (init\<lparr> classCount := 3, frame := Holo \<rparr>)) = 3
   \<and> frame (reset (init\<lparr> classCount := 3, frame := Holo \<rparr>)) = Holo
   \<and> uploadURL (reset (init\<lparr> uploadURL := Some ''data:image/png;base64,AAAA'',
                             useDefaultIllust := False \<rparr>)) = None"
  using reset_fields [of init] reset_fields [of "init\<lparr> classCount := 3, frame := Holo \<rparr>"]
    reset_fields [of "init\<lparr> uploadURL := Some ''data:image/png;base64,AAAA'',
                             useDefaultIllust := False \<rparr>"]
  by simp


subsection \<open>C4: the grid is filled column by column\<close>

text \<open>
  C4: for \<open>classCount\<close> between 1 and 4, every column \<open>c < classCount\<close> and every row
  \<open>r < 6\<close>, the grid strokes the box of that cell at \<open>cellX\<close>, \<open>cellY\<close> and draws at
  its text anchor the (capped) text of \<open>techniques[c * 6 + r]\<close> and nothing else. With two
  classes, \<open>techniques[7]\<close> is thus drawn in the second column, second row.
\<close>

theorem grid_column_major:
  assumes "1 \<le> classCount s" "classCount s \<le> 4" "c < classCount s" "r < 6"
  shows "completes (techniqueGrid s)
     \<and> StrokeRect (cellX s c) (cellY r) (cellW s) cellH \<in> set (calls (techniqueGrid s))
     \<and> cellX s c = Num (48 + real c * (624 / real (classCount s)))
     \<and> cellY r = Num (832 + real r * 40)
     \<and> cellW s = Num (624 / real (classCount s)) \<and> cellH = Num 40
     \<and> (FillText t (jadd (cellX s c) (Num 8)) (jadd (cellY r) (Num 20))
           \<in> set (calls (techniqueGrid s)))
         = (t = take 18 (orEmpty (elemAt (techniques s) (c * 6 + r))))"
proof -
  have pos: "0 < classCount s" using assms by simp
  have r: "r < rows" using assms by (simp add: rows_def)
  have box: "StrokeRect (cellX s c) (cellY r) (cellW s) cellH \<in> set (calls (techniqueGrid s))"
    unfolding boxes_techniqueGrid using assms(3) r by blast
  have cell: "(FillText t (jadd (cellX s c) (Num 8)) (jadd (cellY r) (Num 20))
           \<in> set (calls (techniqueGrid s)))
         = (t = take 18 (orEmpty (elemAt (techniques s) (c * 6 + r))))"
    using text_at_cell [OF assms(3) r, of t] by (simp add: cellH_eq cellText_def rows_def)
  show ?thesis
    using box cell completes_techniqueGrid cellX_eq [OF pos] cellY_eq cellW_eq [OF pos] cellH_eq
    by simp
qed

theorem grid_column_major_witness:
  "FillText [0x41] (Num 368) (Num 892)
     \<in> set (calls (techniqueGrid
         (handleTechniqueChange 7 [0x41] (handleTechniqueChange 9 [0x42] (init\<lparr> classCount := 2 \<rparr>)))))
   \<and> FillText [0x41] (Num 368) (Num 972)
     \<notin> set (calls (techniqueGrid
         (handleTechniqueChange 7 [0x41] (handleTechniqueChange 9 [0x42] (init\<lparr> classCount := 2 \<rparr>)))))
   \<and> FillText [0x42] (Num 368) (Num 972)
     \<in> set (calls (techniqueGrid
         (handleTechniqueChange 7 [0x41] (handleTechniqueChange 9 [0x42] (init\<lparr> classCount := 2 \<rparr>)))))"
proof -
  let ?s = "handleTechniqueChange 7 [0x41] (handleTechniqueChange 9 [0x42] (init\<lparr> classCount := 2 \<rparr>))"
  have cc: "classCount ?s = 2"
    by (simp add: handleTechniqueChange_def)
  have t7: "elemAt (techniques ?s) 7 = Some [0x41]"
    by (simp add: handleTechniqueChange_def elemAt_assignAt_same)
  have t9: "elemAt (techniques ?s) 9 = Some [0x42]"
    by (simp add: handleTechniqueChange_def elemAt_assignAt_same elemAt_assignAt_other)
  have a: "FillText [0x41] (Num 368) (Num 892) \<in> set (calls (techniqueGrid ?s))"
    using grid_column_major [of ?s 1 1 "[0x41]"]
    by (simp add: cc t7 orElse_def cellX_eq cellY_eq)
  have b: "FillText [0x41] (Num 368) (Num 972) \<notin> set (calls (techniqueGrid ?s))"
    using grid_column_major [of ?s 1 3 "[0x41]"]
    by (simp add: cc t9 orElse_def cellX_eq cellY_eq)
  have c: "FillText [0x42] (Num 368) (Num 972) \<in> set (calls (techniqueGrid ?s))"
    using grid_column_major [of ?s 1 3 "[0x42]"]
    by (simp add: cc t9 orElse_def cellX_eq cellY_eq)
  show ?thesis
    using a b c by simp
qed

subsection \<open>C5: race text, race tag and the user name\<close>

text \<open>
  C5: the race text is the custom race when that is not empty, else the preset, cut to at
  most 6 code units. The header paints its panel and the three texts, the user name
  right-aligned at 672 minus the reserved width; exactly when the race text is not empty
  it then paints the badge, a red rounded box 64 wide and 116 high at (616, 72), and the
  race text centred on it. The reserved width is 112 with a badge and 0 without, so with
  a badge the user name ends at 560 and every point of the badge lies right of it; with
  both race fields empty there is no badge and the user name is back at 672.
\<close>

theorem race_tag_header:
  "raceText s = take 6 (if raceCustom s \<noteq> [] then raceCustom s else racePreset s)
   \<and> length (raceText s) \<le> 6
   \<and> completes (header s)
   \<and> marks (calls (header s)) =
       [FilledPath (LinearGradient (Num 32) (Num 64) (Num 32) (Num 196)
            [(Num 0, ''#111827''), (Num 1, ''#0b1220'')])
          (boxPath 32 64 656 132 16),
        DrawnText (title s) (Num 48) (Num 98) ''left'' ''middle''
          ''bold 22px system-ui, -apple-system, Segoe UI, Roboto'' (Color ''#e5e7eb''),
        DrawnText (username s) (usernameX s) (Num 98) ''right'' ''middle''
          ''bold 22px system-ui, -apple-system, Segoe UI, Roboto'' (Color ''#e5e7eb''),
        DrawnText (monsterName s) (Num 360) (Num 152) ''center'' ''middle''
          ''bold 40px system-ui, -apple-system, Segoe UI, Roboto'' (Color ''#e5e7eb'')]
       @ (if raceText s \<noteq> [] then
            [FilledPath (Color ''#ef4444'') (boxPath 616 72 64 116 8),
             DrawnText (raceText s) (Num 648) (Num 130) ''center'' ''middle''
               ''bold 24px system-ui, -apple-system, Segoe UI, Roboto'' (Color ''#fff'')]
          else [])
   \<and> (FilledPath (Color ''#ef4444'') (boxPath 616 72 64 116 8) \<in> set (marks (calls (header s))))
       = (raceText s \<noteq> [])
   \<and> (SetFillStyle (Color ''#ef4444'') \<in> set (calls (header s))) = (raceText s \<noteq> [])
   \<and> (FillText (raceText s) (Num 648) (Num 130) \<in> set (calls (header s))) = (raceText s \<noteq> [])
   \<and> FillText (username s) (usernameX s) (Num 98) \<in> set (calls (header s))
   \<and> reservedRight s = (if raceText s \<noteq> [] then Num 112 else Num 0)
   \<and> usernameX s = jsub (Num 672) (reservedRight s)
   \<and> usernameX s = (if raceText s \<noteq> [] then Num 560 else Num 672)
   \<and> tagX s = (if raceText s \<noteq> [] then Num 616 else Num 680)
   \<and> jgt (tagX s) (usernameX s)
   \<and> (raceText s \<noteq> [] \<longrightarrow>
        list_all (\<lambda>px. jgt px (textRight ''right'' (usernameX s) wd))
          (pathXs (boxPath 616 72 64 116 8)))"
proof -
  have a: "length (raceText s) \<le> 6" by (simp add: raceText_def)
  have b: "completes (header s)" by (simp add: header_eq completes_def)
  have c: "(SetFillStyle (Color ''#ef4444'') \<in> set (calls (header s))) = (raceText s \<noteq> [])"
    by (simp add: header_eq calls_def)
  have d: "(FillText (raceText s) (Num 648) (Num 130) \<in> set (calls (header s))) = (raceText s \<noteq> [])"
    by (simp add: header_eq calls_def usernameX_eq)
  have e: "FillText (username s) (usernameX s) (Num 98) \<in> set (calls (header s))"
    by (simp add: header_eq calls_def)
  have g: "usernameX s = jsub (Num 672) (reservedRight s)"
    by (simp add: usernameX_def headerX_def headerW_def CANVAS_W_def jsub_def)
  have h: "jgt (tagX s) (usernameX s)"
    by (simp add: usernameX_eq tagX_eq)
  have i: "(FilledPath (Color ''#ef4444'') (boxPath 616 72 64 116 8)
             \<in> set (marks (calls (header s)))) = (raceText s \<noteq> [])"
    by (simp add: marks_header)
  have j: "raceText s \<noteq> [] \<longrightarrow>
        list_all (\<lambda>px. jgt px (textRight ''right'' (usernameX s) wd))
          (pathXs (boxPath 616 72 64 116 8))"
    by (simp add: usernameX_eq textRight_def boxPath_def)
  show ?thesis
    using a b c d e g h i j raceText_eq reservedRight_eq usernameX_eq tagX_eq marks_header
    by blast
qed

theorem race_tag_header_witness:
  "raceText init = [0x9B54, 0x65CF]
   \<and> FillText [0x9B54, 0x65CF] (Num 648) (Num 130) \<in> set (calls (header init))
   \<and> FilledPath (Color ''#ef4444'') (boxPath 616 72 64 116 8) \<in> set (marks (calls (header init)))
   \<and> usernameX init = Num 560
   \<and> list_all (\<lambda>px. jgt px (textRight ''right'' (usernameX init) 300))
         (pathXs (boxPath 616 72 64 116 8))
   \<and> raceText (init\<lparr> racePreset := [] \<rparr>) = []
   \<and> SetFillStyle (Color ''#ef4444'') \<notin> set (calls (header (init\<lparr> racePreset := [] \<rparr>)))
   \<and> FilledPath (Color ''#ef4444'') (boxPath 616 72 64 116 8)
       \<notin> set (marks (calls (header (init\<lparr> racePreset := [] \<rparr>))))
   \<and> usernameX (init\<lparr> racePreset := [] \<rparr>) = Num 672
   \<and> raceText (init\<lparr> raceCustom := [0x41, 0x42, 0x43, 0x44, 0x45, 0x46, 0x47, 0x48] \<rparr>)
       = [0x41, 0x42, 0x43, 0x44, 0x45, 0x46]"
proof -
  let ?e = "init\<lparr> racePreset := [] \<rparr>"
  let ?l = "init\<lparr> raceCustom := [0x41, 0x42, 0x43, 0x44, 0x45, 0x46, 0x47, 0x48] \<rparr>"
  have i: "raceCustom init = [] \<and> racePreset init = [0x9B54, 0x65CF]"
    by (simp add: init_def DEFAULT_RACES_def)
  have t: "raceText init = [0x9B54, 0x65CF]"
    using race_tag_header [of init] by (simp add: i)
  note ri = race_tag_header [of init 300, THEN conjunct2, THEN conjunct2, THEN conjunct2,
      THEN conjunct2]
  have a: "FillText [0x9B54, 0x65CF] (Num 648) (Num 130) \<in> set (calls (header init))"
    using ri by (simp add: t)
  have p: "FilledPath (Color ''#ef4444'') (boxPath 616 72 64 116 8)
      \<in> set (marks (calls (header init)))"
    using ri by (simp add: t)
  have b: "usernameX init = Num 560"
    using ri by (simp add: t jsub_def)
  have ne: "raceText init \<noteq> []" by (simp add: t)
  have o: "list_all (\<lambda>px. jgt px (textRight ''right'' (usernameX init) 300))
         (pathXs (boxPath 616 72 64 116 8))"
    using race_tag_header [of init 300] ne by blast
  have n: "raceText ?e = []"
    using race_tag_header [of ?e] by (simp add: i)
  note re = race_tag_header [of ?e 300, THEN conjunct2, THEN conjunct2, THEN conjunct2,
      THEN conjunct2]
  have c: "SetFillStyle (Color ''#ef4444'') \<notin> set (calls (header ?e))"
    using re by (simp add: n)
  have q: "FilledPath (Color ''#ef4444'') (boxPath 616 72 64 116 8)
      \<notin> set (marks (calls (header ?e)))"
    using re by (simp add: n)
  have d: "usernameX ?e = Num 672"
    using re by (simp add: n jsub_def)
  have e: "raceText ?l = [0x41, 0x42, 0x43, 0x44, 0x45, 0x46]"
    using race_tag_header [of ?l] by simp
  show ?thesis
    using t a p b o n c q d e by simp
qed

subsection \<open>C6: fitContain on a zero source size\<close>

text \<open>
  C6, as stated: with \<open>srcW\<close> or \<open>srcH\<close> zero, \<open>fitContain\<close> does not divide by zero and
  returns finite numbers for every destination. The function has no guard and divides:
  624 / 0 is \<open>Infinity\<close>. A source of 0 by 0 in a 624 by 580 box gives \<open>NaN\<close> in every
  field (the ratio is \<open>Infinity\<close>, and \<open>0 * Infinity\<close> is \<open>NaN\<close>), and so does a zero source
  width with a zero destination width.
\<close>

theorem fitContain_zero_both_NaN:
  "div64 (Num 624) (Num 0) = PInf
   \<and> fitContain (Num 0) (Num 0) (Num 624) (Num 580)
       = \<lparr> fit_w = NaN, fit_h = NaN, fit_x = NaN, fit_y = NaN \<rparr>
   \<and> \<not> fitFinite (fitContain (Num 0) (Num 0) (Num 624) (Num 580))
   \<and> \<not> fitFinite (fitContain (Num 0) (Num 100) (Num 0) (Num 580))"
  by (simp add: fitContain_def fitFinite_def Let_def div64_def mul64_def sub64_def jsub_def)

text \<open>
  C6, amended: \<open>fitContain\<close> has no guard for a zero source size and divides by it; a
  positive size divided by 0 is \<open>Infinity\<close>. When one source size is 0 and the other
  source size \<open>s\<close> and both destination sizes lie between \<open>2 ^ - 300\<close> and \<open>2 ^ 300\<close>
  (the destination in binary64), all four fields are finite: on the axis of the zero size
  the extent is 0 and the offset is half the destination size; on the other axis the
  extent is \<open>s * (dst / s)\<close>, each operation rounded. When both source sizes are 0, every
  field is \<open>NaN\<close>.
\<close>

theorem fitContain_zero_source:
  assumes "isDouble dstW" "isDouble dstH"
    and "2 powi (- 300) \<le> s" "s \<le> 2 powi 300"
    and "2 powi (- 300) \<le> dstW" "dstW \<le> 2 powi 300"
    and "2 powi (- 300) \<le> dstH" "dstH \<le> 2 powi 300"
  shows "div64 (Num dstW) (Num 0) = PInf \<and> div64 (Num dstH) (Num 0) = PInf
    \<and> fitFinite (fitContain (Num 0) (Num s) (Num dstW) (Num dstH))
    \<and> fit_w (fitContain (Num 0) (Num s) (Num dstW) (Num dstH)) = Num 0
    \<and> fit_x (fitContain (Num 0) (Num s) (Num dstW) (Num dstH)) = Num (dstW / 2)
    \<and> fit_h (fitContain (Num 0) (Num s) (Num dstW) (Num dstH))
        = mul64 (Num s) (div64 (Num dstH) (Num s))
    \<and> fitFinite (fitContain (Num s) (Num 0) (Num dstW) (Num dstH))
    \<and> fit_h (fitContain (Num s) (Num 0) (Num dstW) (Num dstH)) = Num 0
    \<and> fit_y (fitContain (Num s) (Num 0) (Num dstW) (Num dstH)) = Num (dstH / 2)
    \<and> fit_w (fitContain (Num s) (Num 0) (Num dstW) (Num dstH))
        = mul64 (Num s) (div64 (Num dstW) (Num s))
    \<and> fitContain (Num 0) (Num 0) (Num dstW) (Num dstH)
        = \<lparr> fit_w = NaN, fit_h = NaN, fit_x = NaN, fit_y = NaN \<rparr>"
proof -
  have dw: "0 < dstW" and dh: "0 < dstH" using assms(5,7) by (simp_all add: in_range_pos)
  have zw: "div64 (Num dstW) (Num 0) = PInf" using dw by (simp add: div64_def)
  have zh: "div64 (Num dstH) (Num 0) = PInf" using dh by (simp add: div64_def)
  have xw: "div64 (sub64 (Num dstW) (Num 0)) (Num 2) = Num (dstW / 2)"
    using assms(1,5) by (rule half_of_double)
  have xh: "div64 (sub64 (Num dstH) (Num 0)) (Num 2) = Num (dstH / 2)"
    using assms(2,7) by (rule half_of_double)
  obtain qh vh where qh: "div64 (Num dstH) (Num s) = Num qh"
    and vh: "mul64 (Num s) (Num qh) = Num vh"
    and fh: "isFinite (div64 (sub64 (Num dstH) (Num vh)) (Num 2))"
    using axis_rounded [OF assms(2,7,8,3,4)] by blast
  obtain qw vw where qw: "div64 (Num dstW) (Num s) = Num qw"
    and vw: "mul64 (Num s) (Num qw) = Num vw"
    and fw: "isFinite (div64 (sub64 (Num dstW) (Num vw)) (Num 2))"
    using axis_rounded [OF assms(1,5,6,3,4)] by blast
  have m0: "mul64 (Num 0) (Num q) = Num 0" for q by (simp add: mul64_def round64_0)
  have a: "fitContain (Num 0) (Num s) (Num dstW) (Num dstH)
      = \<lparr> fit_w = Num 0, fit_h = Num vh, fit_x = Num (dstW / 2),
          fit_y = div64 (sub64 (Num dstH) (Num vh)) (Num 2) \<rparr>"
    by (simp add: fitContain_def Let_def zw qh vh m0 xw)
  have b: "fitContain (Num s) (Num 0) (Num dstW) (Num dstH)
      = \<lparr> fit_w = Num vw, fit_h = Num 0,
          fit_x = div64 (sub64 (Num dstW) (Num vw)) (Num 2), fit_y = Num (dstH / 2) \<rparr>"
    by (simp add: fitContain_def Let_def zh qw vw m0 xh)
  have c: "fitContain (Num 0) (Num 0) (Num dstW) (Num dstH)
        = \<lparr> fit_w = NaN, fit_h = NaN, fit_x = NaN, fit_y = NaN \<rparr>"
    by (simp add: fitContain_def Let_def zw zh mul64_def sub64_def div64_def jsub_def)
  show ?thesis
    unfolding a b c using zw zh fh fw by (simp add: fitFinite_def qh vh qw vw)
qed

theorem fitContain_zero_source_witness:
  "isDouble 624 \<and> isDouble 580
   \<and> fitFinite (fitContain (Num 0) (Num 135) (Num 624) (Num 580))
   \<and> fit_w (fitContain (Num 0) (Num 135) (Num 624) (Num 580)) = Num 0
   \<and> fit_h (fitContain (Num 0) (Num 135) (Num 624) (Num 580)) = Num (580 + 1 / 2 ^ 43)
   \<and> fit_x (fitContain (Num 0) (Num 135) (Num 624) (Num 580)) = Num 312
   \<and> fit_y (fitContain (Num 0) (Num 135) (Num 624) (Num 580)) = Num (- (1 / 2 ^ 44))"
proof -
  have dbl1: "isDouble 624" by (simp add: isDouble_def double_624)
  have dbl2: "isDouble 580" by (simp add: isDouble_def double_580)
  have r1: "2 powi (- 300) \<le> (135::real) \<and> (135::real) \<le> 2 powi 300"
    by (rule range_small) simp_all
  have r2: "2 powi (- 300) \<le> (624::real) \<and> (624::real) \<le> 2 powi 300"
    by (rule range_small) simp_all
  have r3: "2 powi (- 300) \<le> (580::real) \<and> (580::real) \<le> 2 powi 300"
    by (rule range_small) simp_all
  note t = fitContain_zero_source [of 624 580 135]
  have q: "div64 (Num 580) (Num 135) = Num (4837199599768311 / 2 ^ 50)"
    by (simp add: div64_Num round64_116_div_27)
  have h: "mul64 (Num 135) (Num (4837199599768311 / 2 ^ 50)) = Num (580 + 1 / 2 ^ 43)"
    using round64_height_135 by (simp add: mul64_Num)
  have "fit_h (fitContain (Num 0) (Num 135) (Num 624) (Num 580)) = Num (580 + 1 / 2 ^ 43)"
    using t dbl1 dbl2 r1 r2 r3 unfolding q h by simp
  moreover have "fit_y (fitContain (Num 0) (Num 135) (Num 624) (Num 580)) = Num (- (1 / 2 ^ 44))"
  proof -
    have z: "div64 (Num 624) (Num 0) = PInf" by (simp add: div64_def)
    have m: "Math_min PInf (Num (4837199599768311 / 2 ^ 50)) = Num (4837199599768311 / 2 ^ 50)"
      by simp
    have d: "sub64 (Num 580) (Num (580 + 1 / 2 ^ 43)) = Num (- (1 / 2 ^ 43))"
      using round64_minus_2_43 by (simp add: sub64_def jsub_def)
    have x: "div64 (Num (- (1 / 2 ^ 43))) (Num 2) = Num (- (1 / 2 ^ 44))"
      using round64_minus_2_44 by (simp add: div64_def)
    show ?thesis unfolding fitContain_def Let_def z q m h d x by simp
  qed
  ultimately show ?thesis using t dbl1 dbl2 r1 r2 r3 by simp
qed

subsection \<open>C7: roundRect clamps the radius\<close>

text \<open>
  C7: for finite \<open>x\<close>, \<open>y\<close>, \<open>w\<close>, \<open>h\<close> and \<open>r\<close>, the radius \<open>roundRect\<close> uses is
  \<open>min r (min w h / 2)\<close>: when that value is not negative, the four arcs are drawn
  with it (a negative one makes the first arc throw). Radius 50 on a 40 by 20 box is
  drawn with radius 10.
\<close>

theorem roundRect_clamps_radius:
  "clampRadius (Num w) (Num h) (Num r) = Num (min r (min w h / 2))
   \<and> (0 \<le> min r (min w h / 2) \<longrightarrow>
        completes (roundRect (Num px) (Num py) (Num w) (Num h) (Num r) fill stroke)
        \<and> arcRadii (calls (roundRect (Num px) (Num py) (Num w) (Num h) (Num r) fill stroke))
            = replicate 4 (Num (min r (min w h / 2))))
   \<and> (min r (min w h / 2) < 0 \<longrightarrow>
        roundRect (Num px) (Num py) (Num w) (Num h) (Num r) fill stroke = Inl IndexSizeError)"
proof -
  have a: "completes (roundRect (Num px) (Num py) (Num w) (Num h) (Num r) fill stroke)
        \<and> arcRadii (calls (roundRect (Num px) (Num py) (Num w) (Num h) (Num r) fill stroke))
            = replicate 4 (Num (min r (min w h / 2)))"
    if "0 \<le> min r (min w h / 2)"
    using roundRect_nonneg [OF that, of px py fill stroke]
    by (auto simp add: completes_def calls_def)
  show ?thesis
    using a clampRadius_Num roundRect_neg by blast
qed

theorem roundRect_clamps_radius_witness:
  "clampRadius (Num 40) (Num 20) (Num 50) = Num 10
   \<and> completes (roundRect (Num 0) (Num 0) (Num 40) (Num 20) (Num 50) True False)
   \<and> arcRadii (calls (roundRect (Num 0) (Num 0) (Num 40) (Num 20) (Num 50) True False))
       = [Num 10, Num 10, Num 10, Num 10]
   \<and> roundRect (Num 0) (Num 0) (Num (- 40)) (Num 20) (Num 50) True False = Inl IndexSizeError"
  using roundRect_clamps_radius [of 40 20 50 0 0 True False]
    roundRect_clamps_radius [of "- 40" 20 50 0 0 True False]
  by (simp add: numeral_eq_Suc)


subsection \<open>C8: the technique text is cut to 18 code units\<close>

text \<open>
  C8: where the array holds the string \<open>t\<close> for the cell in column \<open>c\<close>, row \<open>r\<close>, the
  one text drawn in that cell is \<open>take 18 t\<close>: the first \<open>min 18 (length t)\<close> code units and
  nothing after them. A string of 30 code units is drawn as its first 18; a string of at
  most 18 is drawn whole. No text in the grid is longer than 18.
\<close>

theorem technique_text_prefix:
  assumes "c < classCount s" "r < 6" "elemAt (techniques s) (c * 6 + r) = Some t"
  shows "cellText s c r = take 18 t
     \<and> (FillText u (jadd (cellX s c) (Num 8)) (jadd (cellY r) (Num 20))
           \<in> set (calls (techniqueGrid s))) = (u = take 18 t)
     \<and> length (cellText s c r) = min 18 (length t)
     \<and> (length t = 30 \<longrightarrow> length (cellText s c r) = 18 \<and> cellText s c r @ drop 18 t = t)
     \<and> (length t \<le> 18 \<longrightarrow> cellText s c r = t)
     \<and> (\<forall>v px py. FillText v px py \<in> set (calls (techniqueGrid s)) \<longrightarrow> length v \<le> 18)"
proof -
  have r: "r < rows" using assms by (simp add: rows_def)
  have ct: "cellText s c r = take 18 t"
    using assms(3) by (rule cellText_Some)
  have cell: "(FillText u (jadd (cellX s c) (Num 8)) (jadd (cellY r) (Num 20))
           \<in> set (calls (techniqueGrid s))) = (u = take 18 t)"
    using text_at_cell [OF assms(1) r, of u] by (simp add: cellH_eq ct)
  have cap: "\<forall>v px py. FillText v px py \<in> set (calls (techniqueGrid s)) \<longrightarrow> length v \<le> 18"
    unfolding texts_techniqueGrid using length_cellText by blast
  show ?thesis
    using cell cap by (simp add: ct)
qed

theorem technique_text_prefix_witness:
  "elemAt (techniques (handleTechniqueChange 7 (replicate 30 0x41) (init\<lparr> classCount := 2 \<rparr>))) 7
     = Some (replicate 30 0x41)
   \<and> FillText (replicate 18 0x41) (Num 368) (Num 892)
     \<in> set (calls (techniqueGrid
         (handleTechniqueChange 7 (replicate 30 0x41) (init\<lparr> classCount := 2 \<rparr>))))
   \<and> FillText (replicate 30 0x41) (Num 368) (Num 892)
     \<notin> set (calls (techniqueGrid
         (handleTechniqueChange 7 (replicate 30 0x41) (init\<lparr> classCount := 2 \<rparr>))))"
proof -
  let ?s = "handleTechniqueChange 7 (replicate 30 0x41) (init\<lparr> classCount := 2 \<rparr>)"
  have cc: "classCount ?s = 2"
    by (simp add: handleTechniqueChange_def)
  have t7: "elemAt (techniques ?s) 7 = Some (replicate 30 0x41)"
    by (simp add: handleTechniqueChange_def elemAt_assignAt_same)
  have g: "c < classCount ?s \<Longrightarrow> r < 6 \<Longrightarrow> c * 6 + r = 7 \<Longrightarrow>
      (FillText u (jadd (cellX ?s c) (Num 8)) (jadd (cellY r) (Num 20))
           \<in> set (calls (techniqueGrid ?s))) = (u = take 18 (replicate 30 0x41))" for c r u
    using technique_text_prefix [of c ?s r "replicate 30 0x41"] t7 by simp
  have a: "FillText (replicate 18 0x41) (Num 368) (Num 892) \<in> set (calls (techniqueGrid ?s))"
    using g [of 1 1 "replicate 18 0x41"] by (simp add: cc cellX_eq cellY_eq)
  have "replicate 30 (0x41 :: 16 word) \<noteq> replicate 18 0x41"
  proof
    assume "replicate 30 (0x41 :: 16 word) = replicate 18 0x41"
    then have "length (replicate 30 (0x41 :: 16 word)) = length (replicate 18 (0x41 :: 16 word))"
      by (rule arg_cong)
    then show False by simp
  qed
  then have b: "FillText (replicate 30 0x41) (Num 368) (Num 892) \<notin> set (calls (techniqueGrid ?s))"
    using g [of 1 1 "replicate 30 0x41"] by (simp add: cc cellX_eq cellY_eq)
  show ?thesis
    using t7 a b by simp
qed

subsection \<open>C9: cells without an entry\<close>

text \<open>
  C9: the technique grid is drawn to the end for every state, whatever the length of the
  technique array. For \<open>c < classCount\<close> and \<open>r < 6\<close>, when index \<open>c * 6 + r\<close> is past
  the end of the array or holds \<^verbatim>\<open>undefined\<close>, the one text drawn in that cell is the
  empty string.
\<close>

theorem grid_missing_entry_empty:
  assumes "c < classCount s" "r < 6"
    and "length (techniques s) \<le> c * 6 + r \<or> techniques s ! (c * 6 + r) = None"
  shows "completes (techniqueGrid s)
     \<and> elemAt (techniques s) (c * 6 + r) = None
     \<and> cellText s c r = []
     \<and> (FillText u (jadd (cellX s c) (Num 8)) (jadd (cellY r) (Num 20))
           \<in> set (calls (techniqueGrid s))) = (u = [])"
proof -
  have r: "r < rows" using assms by (simp add: rows_def)
  have none: "elemAt (techniques s) (c * 6 + r) = None"
    using assms(3) by (auto simp add: elemAt_def)
  have ct: "cellText s c r = []"
    using none by (rule cellText_None)
  have cell: "(FillText u (jadd (cellX s c) (Num 8)) (jadd (cellY r) (Num 20))
           \<in> set (calls (techniqueGrid s))) = (u = [])"
    using text_at_cell [OF assms(1) r, of u] by (simp add: cellH_eq ct)
  show ?thesis
    using completes_techniqueGrid none ct cell by simp
qed

theorem grid_missing_entry_empty_witness:
  "completes (techniqueGrid (init\<lparr> classCount := 2, techniques := [Some [0x41]] \<rparr>))
   \<and> FillText [] (Num 368) (Num 892)
     \<in> set (calls (techniqueGrid (init\<lparr> classCount := 2, techniques := [Some [0x41]] \<rparr>)))
   \<and> FillText [] (Num 56) (Num 892)
     \<in> set (calls (techniqueGrid (init\<lparr> classCount := 2, techniques := [Some [0x41], None] \<rparr>)))"
proof -
  let ?s = "init\<lparr> classCount := 2, techniques := [Some [0x41]] \<rparr>"
  let ?h = "init\<lparr> classCount := 2, techniques := [Some [0x41], None] \<rparr>"
  have a: "completes (techniqueGrid ?s)
     \<and> FillText [] (Num 368) (Num 892) \<in> set (calls (techniqueGrid ?s))"
    using grid_missing_entry_empty [of 1 ?s 1 "[]"] by (simp add: cellX_eq cellY_eq)
  have b: "FillText [] (Num 56) (Num 892) \<in> set (calls (techniqueGrid ?h))"
    using grid_missing_entry_empty [of 0 ?h 1 "[]"] by (simp add: cellX_eq cellY_eq)
  show ?thesis
    using a b by simp
qed

subsection \<open>C10: what the class slider and a technique input leave alone\<close>

text \<open>
  C10: setting the class count leaves the technique array as it is, and so does every
  run of events other than a technique input or a reset; the array has 24 entries in every
  state a run reaches, before and after a change of the class count. The text of a cell is
  the same after the class count went down and up again. A technique input at index \<open>i\<close>
  stores the value at \<open>i\<close>, leaves every other index and the length of the array as they
  are, and touches no other field.
\<close>

theorem techniques_frame:
  "techniques (dispatch s (SetClassCount n)) = techniques s
   \<and> (run s es = Some s' \<and> list_all (\<lambda>e. \<not> writesTechniques e) es
        \<longrightarrow> techniques s' = techniques s)
   \<and> (run init es' = Some q
        \<longrightarrow> length (techniques q) = 24 \<and> length (techniques (dispatch q (SetClassCount n))) = 24)
   \<and> cellText (dispatch (dispatch s (SetClassCount m)) (SetClassCount n)) c r = cellText s c r
   \<and> elemAt (techniques (handleTechniqueChange i v s)) i = Some v
   \<and> (j \<noteq> i \<longrightarrow> elemAt (techniques (handleTechniqueChange i v s)) j = elemAt (techniques s) j)
   \<and> (i < length (techniques s)
        \<longrightarrow> length (techniques (handleTechniqueChange i v s)) = length (techniques s))
   \<and> (handleTechniqueChange i v s)\<lparr> techniques := techniques s \<rparr> = s"
proof -
  have a: "run s es = Some s' \<and> list_all (\<lambda>e. \<not> writesTechniques e) es
        \<longrightarrow> techniques s' = techniques s"
    using run_keeps by blast
  have b: "run init es' = Some q
        \<longrightarrow> length (techniques q) = 24 \<and> length (techniques (dispatch q (SetClassCount n))) = 24"
    using wellFormed_run [OF wellFormed_init] by (auto simp add: wellFormed_def)
  have c: "cellText (dispatch (dispatch s (SetClassCount m)) (SetClassCount n)) c r = cellText s c r"
    by (simp add: cellText_def)
  have d: "elemAt (techniques (handleTechniqueChange i v s)) i = Some v"
    by (simp add: handleTechniqueChange_def elemAt_assignAt_same)
  have e: "j \<noteq> i \<longrightarrow> elemAt (techniques (handleTechniqueChange i v s)) j = elemAt (techniques s) j"
    by (simp add: handleTechniqueChange_def elemAt_assignAt_other)
  have f: "i < length (techniques s)
        \<longrightarrow> length (techniques (handleTechniqueChange i v s)) = length (techniques s)"
    by (simp add: handleTechniqueChange_def length_assignAt)
  have g: "(handleTechniqueChange i v s)\<lparr> techniques := techniques s \<rparr> = s"
    by (simp add: handleTechniqueChange_def)
  show ?thesis
    using a b c d e f g by simp
qed

theorem techniques_frame_witness:
  "run (handleTechniqueChange 7 [0x41] init) [SetClassCount 2, SetFrame Dark, SetClassCount 1]
     = Some (handleTechniqueChange 7 [0x41] init\<lparr> classCount := 1, frame := Dark \<rparr>)
   \<and> elemAt (techniques (handleTechniqueChange 7 [0x41] init\<lparr> classCount := 1, frame := Dark \<rparr>)) 7
       = Some [0x41]
   \<and> elemAt (techniques (handleTechniqueChange 7 [0x41] init)) 8 = Some []
   \<and> length (techniques (handleTechniqueChange 7 [0x41] init)) = 24
   \<and> length (techniques (dispatch init (SetClassCount 3))) = 24"
proof -
  let ?s = "handleTechniqueChange 7 [0x41] init"
  let ?q = "?s\<lparr> classCount := 1, frame := Dark \<rparr>"
  have r: "run ?s [SetClassCount 2, SetFrame Dark, SetClassCount 1] = Some ?q"
    by simp
  have i8: "elemAt (techniques init) 8 = Some []"
    by (simp add: init_def elemAt_def)
  have l: "length (techniques init) = 24"
    by (simp add: init_def)
  have k: "techniques ?q = techniques ?s"
    using techniques_frame [of ?s 1 "[SetClassCount 2, SetFrame Dark, SetClassCount 1]" ?q]
    by (simp add: r)
  have a: "elemAt (techniques ?q) 7 = Some [0x41]"
    using techniques_frame [of init 1 "[]" init "[]" init 1 0 0 7 "[0x41]" 8] by (simp add: k)
  have b: "elemAt (techniques ?s) 8 = Some []"
    using techniques_frame [of init 1 "[]" init "[]" init 1 0 0 7 "[0x41]" 8] by (simp add: i8)
  have c: "length (techniques ?s) = 24"
    using techniques_frame [of init 1 "[]" init "[]" init 1 0 0 7 "[0x41]" 8] by (simp add: l)
  have d: "length (techniques (dispatch init (SetClassCount 3))) = 24"
    using techniques_frame [of init 3 "[]" init "[]" init 1 0 0 7 "[0x41]" 8] by simp
  show ?thesis
    using r a b c d by simp
qed


end
